theory Spec2Isabelle
  imports Main "HOL-Library.Sublist"
begin

section \<open>The filesystem as the commands observe it\<close>

text \<open>
  The commands reach the disk through \<^verbatim>\<open>fs.existsSync\<close>, \<^verbatim>\<open>fs.statSync\<close>,
  \<^verbatim>\<open>fs.readdirSync\<close>, \<^verbatim>\<open>fs.remove\<close> and \<^verbatim>\<open>fs.copy\<close> only. A path is the list of its
  components, so \<^verbatim>\<open>path.join(d, name)\<close> is \<open>d @ [name]\<close>. The filesystem maps every path
  to what \<^verbatim>\<open>statSync\<close> finds there after following symbolic links: a regular file with its
  byte length, a directory with the size that \<^verbatim>\<open>stat\<close> gives for the directory itself and
  the names \<^verbatim>\<open>readdirSync\<close> lists, or a directory that may not be listed (\<open>Sealed\<close>,
  \<^verbatim>\<open>EACCES\<close>). A path that does not resolve maps to \<open>None\<close>: \<^verbatim>\<open>existsSync\<close> is false and
  \<^verbatim>\<open>statSync\<close> throws there, and none of the commands looks at the code of the error. So a
  name that a directory lists but that maps to \<open>None\<close> is a dangling link, and a symbolic
  link back to an ancestor shows as the same directory again one level further down, for
  as many levels as the operating system follows links in one path. Sizes are natural
  numbers: byte counts, far below the range where the numbers of JavaScript stop being exact.
\<close>

type_synonym path = "string list"

datatype node = File nat | Dir nat "string list" | Sealed nat

type_synonym filesystem = "path \<Rightarrow> node option"

datatype error = Error string

record stats =
  isDirectory :: bool
  stat_size :: nat

definition existsSync :: "filesystem \<Rightarrow> path \<Rightarrow> bool" where
  "existsSync fs p = (fs p \<noteq> None)"

definition statSync :: "filesystem \<Rightarrow> path \<Rightarrow> error + stats" where
  "statSync fs p =
     (case fs p of
        None \<Rightarrow> Inl (Error ''ENOENT'')
      | Some (File n) \<Rightarrow> Inr \<lparr>isDirectory = False, stat_size = n\<rparr>
      | Some (Dir dsz names) \<Rightarrow> Inr \<lparr>isDirectory = True, stat_size = dsz\<rparr>
      | Some (Sealed dsz) \<Rightarrow> Inr \<lparr>isDirectory = True, stat_size = dsz\<rparr>)"

definition readdirSync :: "filesystem \<Rightarrow> path \<Rightarrow> error + string list" where
  "readdirSync fs p =
     (case fs p of
        None \<Rightarrow> Inl (Error ''ENOENT'')
      | Some (File n) \<Rightarrow> Inl (Error ''ENOTDIR'')
      | Some (Dir dsz names) \<Rightarrow> Inr names
      | Some (Sealed dsz) \<Rightarrow> Inl (Error ''EACCES''))"

section \<open>Directory and file sizes (cleanWorkspace.js, statusWorkspace.js)\<close>

text \<open>
  \<^verbatim>\<open>getDirectorySize\<close> has the same text in both files. Its \<^verbatim>\<open>for\<close> loop is
  \<open>getDirectorySize_items\<close>, which gets the recursive call as \<open>rec\<close>; an exception
  inside the \<^verbatim>\<open>try\<close> is the value \<open>Inl\<close>, which the \<^verbatim>\<open>catch\<close> turns into 0. The
  result \<open>None\<close> stands for a call that never returns; the recursion has no bound of its
  own, it ends where the tree ends.
\<close>

fun getDirectorySize_items ::
  "(path \<Rightarrow> (error + nat) option) \<Rightarrow> filesystem \<Rightarrow> path \<Rightarrow> string list \<Rightarrow> nat
     \<Rightarrow> (error + nat) option"
where
  "getDirectorySize_items rec fs dirPath [] sz = Some (Inr sz)"
| "getDirectorySize_items rec fs dirPath (item # items) sz =
     (case statSync fs (dirPath @ [item]) of
        Inl e \<Rightarrow> Some (Inl e)
      | Inr st \<Rightarrow>
          if isDirectory st then
            Option.bind (rec (dirPath @ [item]))
              (\<lambda>r. case r of
                      Inl e \<Rightarrow> Some (Inl e)
                    | Inr n \<Rightarrow> getDirectorySize_items rec fs dirPath items (sz + n))
          else getDirectorySize_items rec fs dirPath items (sz + stat_size st))"

lemma getDirectorySize_items_mono [partial_function_mono]:
  assumes "\<And>p. mono_option (\<lambda>f. R f p)"
  shows "mono_option (\<lambda>f. getDirectorySize_items (R f) fs dirPath items sz)"
proof (induction items arbitrary: sz)
  case Nil
  show ?case by (simp add: option.const_mono)
next
  case (Cons item items)
  show ?case
  proof (cases "statSync fs (dirPath @ [item])")
    case (Inl e)
    then show ?thesis by (simp add: option.const_mono)
  next
    case (Inr st)
    have step: "mono_option (\<lambda>f. case r of
                    Inl e \<Rightarrow> Some (Inl e)
                  | Inr n \<Rightarrow> getDirectorySize_items (R f) fs dirPath items (sz + n))" for r
      by (cases r) (simp_all add: Cons.IH option.const_mono)
    show ?thesis
    proof (cases "isDirectory st")
      case True
      with Inr show ?thesis
        by simp (intro bind_mono assms step)
    next
      case False
      with Inr show ?thesis by (simp add: Cons.IH)
    qed
  qed
qed

partial_function (option) getDirectorySize :: "filesystem \<Rightarrow> path \<Rightarrow> (error + nat) option" where
  "getDirectorySize fs dirPath =
     (if \<not> existsSync fs dirPath then Some (Inr 0)
      else case readdirSync fs dirPath of
             Inl e \<Rightarrow> Some (Inr 0)
           | Inr items \<Rightarrow>
               Option.bind (getDirectorySize_items (getDirectorySize fs) fs dirPath items 0)
                 (\<lambda>r. case r of Inl e \<Rightarrow> Some (Inr 0) | Inr sz \<Rightarrow> Some (Inr sz)))"

definition getFileSize :: "filesystem \<Rightarrow> path \<Rightarrow> error + nat" where
  "getFileSize fs filePath =
     (if \<not> existsSync fs filePath then Inr 0
      else case statSync fs filePath of
             Inl e \<Rightarrow> Inr 0
           | Inr st \<Rightarrow> Inr (stat_size st))"

section \<open>The world of one command run\<close>

text \<open>
  Everything outside the repository's own code is part of the world: the files, the git
  repository that \<^verbatim>\<open>simple-git\<close> drives, the clock and the package manager. A call to
  \<^verbatim>\<open>fs.remove\<close>, \<^verbatim>\<open>fs.copy\<close> or to git is appended to a log, so that "was invoked" is
  a statement about the log, and it rejects with a message when the fault table of the
  world says so; a rejected call changes nothing but the log.

  The git calls are the ones the update makes, with their arguments:
  \<^verbatim>\<open>status()\<close>, \<^verbatim>\<open>stash()\<close>, \<^verbatim>\<open>reset('hard')\<close>, \<^verbatim>\<open>clean('f', ['-d'])\<close>,
  \<^verbatim>\<open>fetch('origin', 'main')\<close>, \<^verbatim>\<open>revparse(['HEAD'])\<close>, \<^verbatim>\<open>revparse(['origin/main'])\<close>,
  \<^verbatim>\<open>log(['HEAD..origin/main'])\<close> and \<^verbatim>\<open>pull('origin', 'main')\<close>.
\<close>

datatype fs_call = Remove path | Copy path path

datatype vcs_call =
    Status | Stash | Reset_hard | Clean_f_d | Fetch_origin_main
  | Revparse_HEAD | Revparse_origin_main | Log_HEAD_origin_main | Pull_origin_main

record commit =
  message :: string
  date :: string

text \<open>
  \<open>remote_main\<close> is the commit of \<^verbatim>\<open>main\<close> at the remote, \<open>origin_main\<close> the local
  remote-tracking ref that a fetch moves to it. \<open>modified\<close>, \<open>not_added\<close> and \<open>staged\<close>
  are the entries that \<^verbatim>\<open>status()\<close> reports.
\<close>

record repository =
  HEAD :: string
  origin_main :: string
  remote_main :: string
  modified :: "string list"
  not_added :: "string list"
  staged :: "string list"
  stash_list :: "string list list"
  log_range :: "string \<Rightarrow> string \<Rightarrow> commit list"

record world =
  files :: filesystem
  fs_faults :: "fs_call \<Rightarrow> string option"
  fs_log :: "fs_call list"
  repo :: repository
  git_faults :: "vcs_call \<Rightarrow> string option"
  git_log :: "vcs_call list"
  worktree_after :: "vcs_call \<Rightarrow> filesystem \<Rightarrow> filesystem"
  npm_install_fails :: bool
  clock :: nat

subsection \<open>fs-extra: remove and copy\<close>

text \<open>
  \<^verbatim>\<open>fs.remove(p)\<close> deletes \<open>p\<close> with everything below it and takes its name out of the
  listing of its parent; a path that does not exist is removed without an error.
\<close>

definition remove_tree :: "filesystem \<Rightarrow> path \<Rightarrow> filesystem" where
  "remove_tree fs p =
     (\<lambda>q. if prefix p q then None
          else if q = butlast p then
            (case fs q of
               Some (Dir dsz names) \<Rightarrow> Some (Dir dsz (removeAll (last p) names))
             | other \<Rightarrow> other)
          else fs q)"

definition fs_remove :: "path \<Rightarrow> world \<Rightarrow> (error + unit) \<times> world" where
  "fs_remove p w =
     (let w1 = w\<lparr>fs_log := fs_log w @ [Remove p]\<rparr> in
      case fs_faults w (Remove p) of
        Some msg \<Rightarrow> (Inl (Error msg), w1)
      | None \<Rightarrow> (Inr (), w1\<lparr>files := remove_tree (files w) p\<rparr>))"

text \<open>
  \<^verbatim>\<open>fs.copy(src, dest)\<close> puts a copy of the tree at \<open>src\<close> at \<open>dest\<close> and enters the name
  in the listing of the parent of \<open>dest\<close>; it rejects when \<open>src\<close> does not exist.
\<close>

definition copy_tree :: "filesystem \<Rightarrow> path \<Rightarrow> path \<Rightarrow> filesystem" where
  "copy_tree fs src dest =
     (\<lambda>q. if prefix dest q then fs (src @ drop (length dest) q)
          else if q = butlast dest then
            (case fs q of
               Some (Dir dsz names) \<Rightarrow>
                 Some (Dir dsz (if last dest \<in> set names then names else names @ [last dest]))
             | other \<Rightarrow> other)
          else fs q)"

definition fs_copy :: "path \<Rightarrow> path \<Rightarrow> world \<Rightarrow> (error + unit) \<times> world" where
  "fs_copy src dest w =
     (let w1 = w\<lparr>fs_log := fs_log w @ [Copy src dest]\<rparr> in
      case fs_faults w (Copy src dest) of
        Some msg \<Rightarrow> (Inl (Error msg), w1)
      | None \<Rightarrow>
          if \<not> existsSync (files w) src then (Inl (Error ''ENOENT''), w1)
          else (Inr (), w1\<lparr>files := copy_tree (files w) src dest\<rparr>))"

subsection \<open>simple-git\<close>

text \<open>
  What a call that succeeds does to the repository. \<^verbatim>\<open>stash\<close> puts the changes to tracked
  files away (files that were never added stay), \<^verbatim>\<open>reset --hard\<close> discards them,
  \<^verbatim>\<open>clean -f -d\<close> deletes the files that were never added, \<^verbatim>\<open>fetch\<close> moves the
  remote-tracking ref, \<^verbatim>\<open>pull\<close> moves it and \<open>HEAD\<close>. The calls that rewrite the working tree
  change the files as \<open>worktree_after\<close> says.
\<close>

definition isClean :: "repository \<Rightarrow> bool" where
  "isClean r = (modified r = [] \<and> not_added r = [] \<and> staged r = [])"

definition git_effect :: "vcs_call \<Rightarrow> repository \<Rightarrow> repository" where
  "git_effect c r =
     (case c of
        Status \<Rightarrow> r
      | Stash \<Rightarrow>
          if modified r @ staged r = [] then r
          else r\<lparr>stash_list := (modified r @ staged r) # stash_list r,
                  modified := [], staged := []\<rparr>
      | Reset_hard \<Rightarrow> r\<lparr>modified := [], staged := []\<rparr>
      | Clean_f_d \<Rightarrow> r\<lparr>not_added := []\<rparr>
      | Fetch_origin_main \<Rightarrow> r\<lparr>origin_main := remote_main r\<rparr>
      | Revparse_HEAD \<Rightarrow> r
      | Revparse_origin_main \<Rightarrow> r
      | Log_HEAD_origin_main \<Rightarrow> r
      | Pull_origin_main \<Rightarrow> r\<lparr>origin_main := remote_main r, HEAD := remote_main r\<rparr>)"

definition rewrites_worktree :: "vcs_call \<Rightarrow> bool" where
  "rewrites_worktree c = (c = Stash \<or> c = Reset_hard \<or> c = Clean_f_d \<or> c = Pull_origin_main)"

definition git :: "vcs_call \<Rightarrow> world \<Rightarrow> (error + unit) \<times> world" where
  "git c w =
     (let w1 = w\<lparr>git_log := git_log w @ [c]\<rparr> in
      case git_faults w c of
        Some msg \<Rightarrow> (Inl (Error msg), w1)
      | None \<Rightarrow>
          (Inr (), w1\<lparr>repo := git_effect c (repo w),
                      files := (if rewrites_worktree c then worktree_after w c (files w)
                                else files w)\<rparr>))"

section \<open>cleanWorkspace.js\<close>

text \<open>
  A cleanable item as the source builds it; \<open>isPattern\<close> is false where the source leaves
  it out. The answers are what the two prompts return: the names ticked in the checkbox
  and the final confirmation. A run ends with one of five outcomes; only the last one
  prints the count of cleaned items and the bytes freed.
\<close>

record cleanable_item =
  name :: string
  path :: path
  description :: string
  item_size :: nat
  isPattern :: bool

record clean_answers =
  itemsToClean :: "string list"
  confirmClean :: bool

record clean_report =
  items_cleaned :: nat
  space_freed :: nat
  suggest_install :: bool

datatype clean_outcome =
    NoWorkspace | AlreadyClean | NothingSelected | CleanCancelled | Cleaned clean_report

text \<open>
  Sequencing of asynchronous calls: \<open>None\<close> is a call that never returns, \<open>Inl\<close> a
  rejected promise, which \<^verbatim>\<open>await\<close> rethrows.
\<close>

definition await :: "(error + 'a) option \<Rightarrow> ('a \<Rightarrow> (error + 'b) option) \<Rightarrow> (error + 'b) option" where
  "await m f = (case m of None \<Rightarrow> None | Some (Inl e) \<Rightarrow> Some (Inl e) | Some (Inr x) \<Rightarrow> f x)"

text \<open>
  \<^verbatim>\<open>names.filter(p => fs.statSync(path.join(dir, p)).isDirectory())\<close>: the first
  \<^verbatim>\<open>statSync\<close> that throws ends the filter.
\<close>

fun filter_isDirectory :: "filesystem \<Rightarrow> path \<Rightarrow> string list \<Rightarrow> error + string list" where
  "filter_isDirectory fs dir [] = Inr []"
| "filter_isDirectory fs dir (p # ps) =
     (case statSync fs (dir @ [p]) of
        Inl e \<Rightarrow> Inl e
      | Inr st \<Rightarrow>
          (case filter_isDirectory fs dir ps of
             Inl e \<Rightarrow> Inl e
           | Inr rest \<Rightarrow> Inr (if isDirectory st then p # rest else rest)))"

text \<open>
  \<^verbatim>\<open>getBuildOutputSize\<close>: whatever is thrown inside its \<^verbatim>\<open>try\<close> is ignored and the total
  reached so far is returned.
\<close>

fun getBuildOutputSize_projects ::
  "filesystem \<Rightarrow> path \<Rightarrow> string list \<Rightarrow> nat \<Rightarrow> (error + nat) option"
where
  "getBuildOutputSize_projects fs projectsDir [] totalSize = Some (Inr totalSize)"
| "getBuildOutputSize_projects fs projectsDir (project # projects) totalSize =
     (let scriptsDir = projectsDir @ [project, ''behavior_pack'', ''scripts''];
          distDir = projectsDir @ [project, ''dist'']
      in case getDirectorySize fs scriptsDir of
           None \<Rightarrow> None
         | Some (Inl e) \<Rightarrow> Some (Inr totalSize)
         | Some (Inr s1) \<Rightarrow>
             (case getDirectorySize fs distDir of
                None \<Rightarrow> None
              | Some (Inl e) \<Rightarrow> Some (Inr (totalSize + s1))
              | Some (Inr s2) \<Rightarrow>
                  getBuildOutputSize_projects fs projectsDir projects (totalSize + s1 + s2)))"

definition getBuildOutputSize :: "filesystem \<Rightarrow> path \<Rightarrow> (error + nat) option" where
  "getBuildOutputSize fs workspaceDir =
     (let projectsDir = workspaceDir @ [''projects''] in
      if \<not> existsSync fs projectsDir then Some (Inr 0)
      else case readdirSync fs projectsDir of
             Inl e \<Rightarrow> Some (Inr 0)
           | Inr names \<Rightarrow>
               (case filter_isDirectory fs projectsDir names of
                  Inl e \<Rightarrow> Some (Inr 0)
                | Inr projects \<Rightarrow> getBuildOutputSize_projects fs projectsDir projects 0))"

definition getTempFilesSize :: "path \<Rightarrow> error + nat" where
  "getTempFilesSize workspaceDir = Inr 0"

definition cleanableItems :: "filesystem \<Rightarrow> path \<Rightarrow> (error + cleanable_item list) option" where
  "cleanableItems fs workspaceDir =
     await (getDirectorySize fs (workspaceDir @ [''node_modules''])) (\<lambda>s1.
     await (Some (getFileSize fs (workspaceDir @ [''package-lock.json'']))) (\<lambda>s2.
     await (getBuildOutputSize fs workspaceDir) (\<lambda>s3.
     await (Some (getTempFilesSize workspaceDir)) (\<lambda>s4.
     await (getDirectorySize fs (workspaceDir @ [''.vscode''])) (\<lambda>s5.
       Some (Inr
         [\<lparr>name = ''Node modules'', path = workspaceDir @ [''node_modules''],
           description = ''Dependencies cache (can be restored with npm install)'',
           item_size = s1, isPattern = False\<rparr>,
          \<lparr>name = ''Package lock file'', path = workspaceDir @ [''package-lock.json''],
           description = ''Dependency lock file (will be regenerated)'',
           item_size = s2, isPattern = False\<rparr>,
          \<lparr>name = ''Build outputs'', path = workspaceDir @ [''projects''],
           description = ''Compiled JavaScript files in all projects'',
           item_size = s3, isPattern = True\<rparr>,
          \<lparr>name = ''Temporary files'', path = workspaceDir,
           description = ''Temporary and cache files'',
           item_size = s4, isPattern = True\<rparr>,
          \<lparr>name = ''VS Code settings'', path = workspaceDir @ [''.vscode''],
           description = ''VS Code workspace settings (will reset to defaults)'',
           item_size = s5, isPattern = False\<rparr>]))))))"

definition existingItems :: "filesystem \<Rightarrow> cleanable_item list \<Rightarrow> cleanable_item list" where
  "existingItems fs items =
     filter (\<lambda>item. if isPattern item then item_size item > 0 else existsSync fs (path item)) items"

text \<open>
  \<^verbatim>\<open>cleanPatternItem\<close>. The source writes the block
  \<^verbatim>\<open>if (fs.existsSync(d)) { size = await getDirectorySize(d); await fs.remove(d); totalCleaned += size }\<close>
  twice for each project, for the scripts and for the dist directory; it is
  \<open>clean_measured\<close>. Nothing inside the function catches an exception.
\<close>

definition clean_measured :: "path \<Rightarrow> nat \<Rightarrow> world \<Rightarrow> ((error + nat) \<times> world) option" where
  "clean_measured dir totalCleaned w =
     (if existsSync (files w) dir then
        (case getDirectorySize (files w) dir of
           None \<Rightarrow> None
         | Some (Inl e) \<Rightarrow> Some (Inl e, w)
         | Some (Inr sz) \<Rightarrow>
             (case fs_remove dir w of
                (Inl e, w') \<Rightarrow> Some (Inl e, w')
              | (Inr u, w') \<Rightarrow> Some (Inr (totalCleaned + sz), w')))
      else Some (Inr totalCleaned, w))"

fun cleanPatternItem_projects ::
  "path \<Rightarrow> string list \<Rightarrow> nat \<Rightarrow> world \<Rightarrow> ((error + nat) \<times> world) option"
where
  "cleanPatternItem_projects projectsDir [] totalCleaned w = Some (Inr totalCleaned, w)"
| "cleanPatternItem_projects projectsDir (project # projects) totalCleaned w =
     (case clean_measured (projectsDir @ [project, ''behavior_pack'', ''scripts'']) totalCleaned w of
        None \<Rightarrow> None
      | Some (Inl e, w1) \<Rightarrow> Some (Inl e, w1)
      | Some (Inr total1, w1) \<Rightarrow>
          (case clean_measured (projectsDir @ [project, ''dist'']) total1 w1 of
             None \<Rightarrow> None
           | Some (Inl e, w2) \<Rightarrow> Some (Inl e, w2)
           | Some (Inr total2, w2) \<Rightarrow>
               cleanPatternItem_projects projectsDir projects total2 w2))"

definition cleanPatternItem ::
  "cleanable_item \<Rightarrow> path \<Rightarrow> world \<Rightarrow> ((error + nat) \<times> world) option"
where
  "cleanPatternItem item workspaceDir w =
     (if name item = ''Build outputs'' then
        (let projectsDir = workspaceDir @ [''projects''] in
         if existsSync (files w) projectsDir then
           (case readdirSync (files w) projectsDir of
              Inl e \<Rightarrow> Some (Inl e, w)
            | Inr names \<Rightarrow>
                (case filter_isDirectory (files w) projectsDir names of
                   Inl e \<Rightarrow> Some (Inl e, w)
                 | Inr projects \<Rightarrow> cleanPatternItem_projects projectsDir projects 0 w))
         else Some (Inr 0, w))
      else if name item = ''Temporary files'' then Some (Inr 0, w)
      else Some (Inr 0, w))"

text \<open>
  The loop of \<^verbatim>\<open>cleanWorkspace\<close> over the selected names, with its \<^verbatim>\<open>try\<close> around each
  item, and the command itself.
\<close>

fun cleanWorkspace_items ::
  "path \<Rightarrow> cleanable_item list \<Rightarrow> string list \<Rightarrow> nat \<Rightarrow> nat \<Rightarrow> world
     \<Rightarrow> ((nat \<times> nat) \<times> world) option"
where
  "cleanWorkspace_items workspaceDir existing [] totalCleaned itemsCleaned w =
     Some ((totalCleaned, itemsCleaned), w)"
| "cleanWorkspace_items workspaceDir existing (itemName # rest) totalCleaned itemsCleaned w =
     (case find (\<lambda>i. name i = itemName) existing of
        None \<Rightarrow> cleanWorkspace_items workspaceDir existing rest totalCleaned itemsCleaned w
      | Some item \<Rightarrow>
          if isPattern item then
            (case cleanPatternItem item workspaceDir w of
               None \<Rightarrow> None
             | Some (Inl e, w') \<Rightarrow>
                 cleanWorkspace_items workspaceDir existing rest totalCleaned itemsCleaned w'
             | Some (Inr n, w') \<Rightarrow>
                 cleanWorkspace_items workspaceDir existing rest (totalCleaned + n)
                   (itemsCleaned + 1) w')
          else
            (case fs_remove (path item) w of
               (Inl e, w') \<Rightarrow>
                 cleanWorkspace_items workspaceDir existing rest totalCleaned itemsCleaned w'
             | (Inr u, w') \<Rightarrow>
                 cleanWorkspace_items workspaceDir existing rest
                   (totalCleaned + item_size item) (itemsCleaned + 1) w'))"

definition cleanWorkspace ::
  "path \<Rightarrow> clean_answers \<Rightarrow> world \<Rightarrow> ((error + clean_outcome) \<times> world) option"
where
  "cleanWorkspace cwd answers w =
     (let workspaceDir = cwd @ [''workspace''] in
      if \<not> existsSync (files w) workspaceDir then Some (Inr NoWorkspace, w)
      else
        (case cleanableItems (files w) workspaceDir of
           None \<Rightarrow> None
         | Some (Inl e) \<Rightarrow> Some (Inl e, w)
         | Some (Inr items) \<Rightarrow>
             (let existing = existingItems (files w) items in
              if existing = [] then Some (Inr AlreadyClean, w)
              else if itemsToClean answers = [] then Some (Inr NothingSelected, w)
              else if \<not> confirmClean answers then Some (Inr CleanCancelled, w)
              else
                (case cleanWorkspace_items workspaceDir existing (itemsToClean answers) 0 0 w of
                   None \<Rightarrow> None
                 | Some ((totalCleaned, itemsCleaned), w') \<Rightarrow>
                     Some (Inr (Cleaned
                       \<lparr>items_cleaned = itemsCleaned, space_freed = totalCleaned,
                        suggest_install =
                          (''Node modules'' \<in> set (itemsToClean answers)
                           \<or> ''Package lock file'' \<in> set (itemsToClean answers))\<rparr>), w')))))"


section \<open>updateWorkspace.js\<close>

text \<open>
  The answers of the operator to the prompts of one run. \<^verbatim>\<open>Date.now()\<close> is the clock of
  the world; the backup directory is the workspace path with \<^verbatim>\<open>_backup_\<close> and the clock
  appended to its last component.
\<close>

record update_answers =
  reinitialize :: bool
  continueUpdate :: string
  confirmUpdate :: bool
  updateDependencies :: bool

datatype dependencies = NoPackageJson | NotRequested | Installed | InstallFailed

datatype update_outcome =
    NoWorkspaceFound | ReinitDeclined | Reinitialized | UpdateCancelled
  | AlreadyUpToDate | ConfirmDeclined | Updated dependencies

fun show_nat :: "nat \<Rightarrow> string" where
  "show_nat n =
     (if n < 10 then [''0123456789'' ! n]
      else show_nat (n div 10) @ [''0123456789'' ! (n mod 10)])"

declare show_nat.simps [simp del]

definition backup_path :: "path \<Rightarrow> nat \<Rightarrow> path" where
  "backup_path workspaceDir now =
     (case rev workspaceDir of
        [] \<Rightarrow> [''_backup_'' @ show_nat now]
      | l # front \<Rightarrow> rev front @ [l @ ''_backup_'' @ show_nat now])"

text \<open>
  \<^verbatim>\<open>initWorkspace\<close> (initWorkspace.js) is a parameter of the reinitialisation: what is
  proved of \<open>reinitializeWorkspace\<close> holds whatever the initialisation does.
\<close>

definition reinitializeWorkspace ::
  "(world \<Rightarrow> (error + unit) \<times> world) \<Rightarrow> path \<Rightarrow> world \<Rightarrow> (error + unit) \<times> world"
where
  "reinitializeWorkspace initWorkspace workspaceDir w =
     (let backupDir = backup_path workspaceDir (clock w) in
      case fs_copy workspaceDir backupDir w of
        (Inl e, w1) \<Rightarrow> (Inl e, w1)
      | (Inr u, w1) \<Rightarrow>
          (case fs_remove workspaceDir w1 of
             (Inl e, w2) \<Rightarrow> (Inl e, w2)
           | (Inr u, w2) \<Rightarrow>
               (case initWorkspace w2 of
                  (Inl e, w3) \<Rightarrow> (Inl e, w3)
                | (Inr u, w3) \<Rightarrow> (Inr (), w3))))"

text \<open>The last part of the update: the dependencies, after the pull.\<close>

definition update_dependencies ::
  "path \<Rightarrow> update_answers \<Rightarrow> world \<Rightarrow> (error + update_outcome) \<times> world"
where
  "update_dependencies workspaceDir answers w =
     (if existsSync (files w) (workspaceDir @ [''package.json'']) then
        (if updateDependencies answers then
           (if npm_install_fails w then (Inr (Updated InstallFailed), w)
            else (Inr (Updated Installed), w))
         else (Inr (Updated NotRequested), w))
      else (Inr (Updated NoPackageJson), w))"

text \<open>The update from "Fetch latest changes" on, after the dirty state is resolved.\<close>

definition update_from_fetch ::
  "path \<Rightarrow> update_answers \<Rightarrow> world \<Rightarrow> (error + update_outcome) \<times> world"
where
  "update_from_fetch workspaceDir answers w =
     (case git Fetch_origin_main w of
        (Inl e, w1) \<Rightarrow> (Inl e, w1)
      | (Inr u, w1) \<Rightarrow>
     (case git Revparse_HEAD w1 of
        (Inl e, w2) \<Rightarrow> (Inl e, w2)
      | (Inr u, w2) \<Rightarrow>
     (let localCommit = HEAD (repo w2) in
      case git Revparse_origin_main w2 of
        (Inl e, w3) \<Rightarrow> (Inl e, w3)
      | (Inr u, w3) \<Rightarrow>
     (let remoteCommit = origin_main (repo w3) in
      if localCommit = remoteCommit then (Inr AlreadyUpToDate, w3)
      else
     (case git Log_HEAD_origin_main w3 of
        (Inl e, w4) \<Rightarrow> (Inl e, w4)
      | (Inr u, w4) \<Rightarrow>
          if \<not> confirmUpdate answers then (Inr ConfirmDeclined, w4)
          else
            (case git Pull_origin_main w4 of
               (Inl e, w5) \<Rightarrow> (Inl e, w5)
             | (Inr u, w5) \<Rightarrow> update_dependencies workspaceDir answers w5))))))"

definition updateWorkspace ::
  "(world \<Rightarrow> (error + unit) \<times> world) \<Rightarrow> path \<Rightarrow> update_answers \<Rightarrow> world
     \<Rightarrow> (error + update_outcome) \<times> world"
where
  "updateWorkspace initWorkspace cwd answers w =
     (let workspaceDir = cwd @ [''workspace''] in
      if \<not> existsSync (files w) workspaceDir then (Inr NoWorkspaceFound, w)
      else if \<not> existsSync (files w) (workspaceDir @ [''.git'']) then
        (if reinitialize answers then
           (case reinitializeWorkspace initWorkspace workspaceDir w of
              (Inl e, w') \<Rightarrow> (Inl e, w')
            | (Inr u, w') \<Rightarrow> (Inr Reinitialized, w'))
         else (Inr ReinitDeclined, w))
      else
        (case git Status w of
           (Inl e, w1) \<Rightarrow> (Inl e, w1)
         | (Inr u, w1) \<Rightarrow>
             if \<not> isClean (repo w1) then
               (if continueUpdate answers = ''cancel'' then (Inr UpdateCancelled, w1)
                else if continueUpdate answers = ''stash'' then
                  (case git Stash w1 of
                     (Inl e, w2) \<Rightarrow> (Inl e, w2)
                   | (Inr u, w2) \<Rightarrow> update_from_fetch workspaceDir answers w2)
                else if continueUpdate answers = ''discard'' then
                  (case git Reset_hard w1 of
                     (Inl e, w2) \<Rightarrow> (Inl e, w2)
                   | (Inr u, w2) \<Rightarrow>
                       (case git Clean_f_d w2 of
                          (Inl e, w3) \<Rightarrow> (Inl e, w3)
                        | (Inr u, w3) \<Rightarrow> update_from_fetch workspaceDir answers w3))
                else update_from_fetch workspaceDir answers w1)
             else update_from_fetch workspaceDir answers w1))"

section \<open>statusWorkspace.js: the projects report\<close>

text \<open>
  \<^verbatim>\<open>fs.readdirSync(dir, { recursive: true })\<close> lists every entry below \<open>dir\<close> by its path
  relative to \<open>dir\<close>, going down into every entry that is a directory. The loop over the
  names of one directory is \<open>readdirSync_recursive_names\<close>.
\<close>

fun readdirSync_recursive_names ::
  "(path \<Rightarrow> (error + path list) option) \<Rightarrow> filesystem \<Rightarrow> path \<Rightarrow> path \<Rightarrow> string list
     \<Rightarrow> (error + path list) option"
where
  "readdirSync_recursive_names rec fs dir rel [] = Some (Inr [])"
| "readdirSync_recursive_names rec fs dir rel (x # xs) =
     Option.bind
       (case statSync fs (dir @ rel @ [x]) of
          Inl e \<Rightarrow> Some (Inr [])
        | Inr st \<Rightarrow> if isDirectory st then rec (rel @ [x]) else Some (Inr []))
       (\<lambda>r. case r of
               Inl e \<Rightarrow> Some (Inl e)
             | Inr below \<Rightarrow>
                 Option.bind (readdirSync_recursive_names rec fs dir rel xs)
                   (\<lambda>r'. case r' of
                           Inl e \<Rightarrow> Some (Inl e)
                         | Inr others \<Rightarrow> Some (Inr ((rel @ [x]) # below @ others))))"

lemma readdirSync_recursive_names_mono [partial_function_mono]:
  assumes "\<And>p. mono_option (\<lambda>f. R f p)"
  shows "mono_option (\<lambda>f. readdirSync_recursive_names (R f) fs dir rel names)"
proof (induction names)
  case Nil
  show ?case by (simp add: option.const_mono)
next
  case (Cons x xs)
  have first: "mono_option (\<lambda>f. case statSync fs (dir @ rel @ [x]) of
                    Inl e \<Rightarrow> Some (Inr [])
                  | Inr st \<Rightarrow> if isDirectory st then R f (rel @ [x]) else Some (Inr []))"
    by (cases "statSync fs (dir @ rel @ [x])")
       (auto simp: option.const_mono intro!: partial_function_mono assms)
  have inner: "mono_option (\<lambda>f. case r' of
                    Inl e \<Rightarrow> Some (Inl e)
                  | Inr others \<Rightarrow> Some (Inr ((rel @ [x]) # below @ others)))" for r' below
    by (cases r') (simp_all add: option.const_mono)
  have rest: "mono_option (\<lambda>f. case r of
                    Inl e \<Rightarrow> Some (Inl e)
                  | Inr below \<Rightarrow>
                      Option.bind (readdirSync_recursive_names (R f) fs dir rel xs)
                        (\<lambda>r'. case r' of
                                Inl e \<Rightarrow> Some (Inl e)
                              | Inr others \<Rightarrow> Some (Inr ((rel @ [x]) # below @ others))))" for r
    by (cases r) (auto simp: option.const_mono intro!: bind_mono Cons.IH inner)
  show ?case
    by (simp only: readdirSync_recursive_names.simps) (intro bind_mono first rest)
qed

partial_function (option) readdirSync_recursive ::
  "filesystem \<Rightarrow> path \<Rightarrow> path \<Rightarrow> (error + path list) option"
where
  "readdirSync_recursive fs dir rel =
     (case readdirSync fs (dir @ rel) of
        Inl e \<Rightarrow> Some (Inl e)
      | Inr names \<Rightarrow> readdirSync_recursive_names (readdirSync_recursive fs dir) fs dir rel names)"

text \<open>A relative path as the string that \<^verbatim>\<open>readdirSync\<close> returns, and \<^verbatim>\<open>String.endsWith\<close>.\<close>

fun join_path :: "path \<Rightarrow> string" where
  "join_path [] = []"
| "join_path [x] = x"
| "join_path (x # y # ys) = x @ ''/'' @ join_path (y # ys)"

definition endsWith :: "string \<Rightarrow> string \<Rightarrow> bool" where
  "endsWith s ending = suffix ending s"

text \<open>
  The check "has compiled scripts" of one project. \<^verbatim>\<open>typeof file === 'string'\<close> holds of
  every entry, since the listing is asked for names.
\<close>

definition hasCompiledScripts :: "filesystem \<Rightarrow> path \<Rightarrow> (error + bool) option" where
  "hasCompiledScripts fs scriptsDir =
     (if existsSync fs scriptsDir then
        (case readdirSync_recursive fs scriptsDir [] of
           None \<Rightarrow> None
         | Some (Inl e) \<Rightarrow> Some (Inl e)
         | Some (Inr entries) \<Rightarrow>
             (let jsFiles = filter (\<lambda>file. endsWith (join_path file) ''.js'') entries
              in Some (Inr (length jsFiles > 0))))
      else Some (Inr False))"

text \<open>
  The report is the list of the lines printed. \<open>manifestVersion\<close> stands for reading
  \<^verbatim>\<open>header.version\<close> from a manifest, \<open>None\<close> when the file cannot be read or has no
  version. An exception ends the loop; the lines printed before it stay printed.
\<close>

datatype status_line =
    NoProjectsDirectory | TotalProjects nat | ProjectDetails
  | ProjectLine string bool "string option" | MoreProjects nat
  | TemplateAvailable | TemplateMissing | CouldNotReadProjects

fun showProjectsStatus_projects ::
  "filesystem \<Rightarrow> (path \<Rightarrow> string option) \<Rightarrow> path \<Rightarrow> string list
     \<Rightarrow> (status_line list \<times> error option) option"
where
  "showProjectsStatus_projects fs manifestVersion projectsDir [] = Some ([], None)"
| "showProjectsStatus_projects fs manifestVersion projectsDir (project # projects) =
     (let projectPath = projectsDir @ [project];
          behaviorManifest = projectPath @ [''behavior_pack'', ''manifest.json''];
          scriptsDir = projectPath @ [''behavior_pack'', ''scripts'']
      in case hasCompiledScripts fs scriptsDir of
           None \<Rightarrow> None
         | Some (Inl e) \<Rightarrow> Some ([], Some e)
         | Some (Inr built) \<Rightarrow>
             (let version = (if existsSync fs behaviorManifest
                             then manifestVersion behaviorManifest else None)
              in case showProjectsStatus_projects fs manifestVersion projectsDir projects of
                   None \<Rightarrow> None
                 | Some (lines, failure) \<Rightarrow>
                     Some (ProjectLine project built version # lines, failure)))"

definition showProjectsStatus ::
  "filesystem \<Rightarrow> (path \<Rightarrow> string option) \<Rightarrow> path \<Rightarrow> status_line list option"
where
  "showProjectsStatus fs manifestVersion workspaceDir =
     (let projectsDir = workspaceDir @ [''projects''] in
      if \<not> existsSync fs projectsDir then Some [NoProjectsDirectory]
      else
        (case readdirSync fs projectsDir of
           Inl e \<Rightarrow> Some [CouldNotReadProjects]
         | Inr names \<Rightarrow>
             (case filter_isDirectory fs projectsDir names of
                Inl e \<Rightarrow> Some [CouldNotReadProjects]
              | Inr directories \<Rightarrow>
                  (let projects = filter (\<lambda>item. item \<noteq> ''template'') directories in
                   if length projects > 0 then
                     (case showProjectsStatus_projects fs manifestVersion projectsDir
                             (take 10 projects) of
                        None \<Rightarrow> None
                      | Some (lines, Some e) \<Rightarrow>
                          Some ([TotalProjects (length projects), ProjectDetails] @ lines
                                @ [CouldNotReadProjects])
                      | Some (lines, None) \<Rightarrow>
                          Some ([TotalProjects (length projects), ProjectDetails] @ lines
                                @ (if length projects > 10
                                   then [MoreProjects (length projects - 10)] else [])
                                @ [if existsSync fs (projectsDir @ [''template''])
                                   then TemplateAvailable else TemplateMissing]))
                   else
                     Some [TotalProjects (length projects),
                           if existsSync fs (projectsDir @ [''template''])
                           then TemplateAvailable else TemplateMissing]))))"

section \<open>Vocabulary of the properties\<close>

text \<open>
  A tree of finite depth: no entry lies \<open>d\<close> or more levels below \<open>p\<close>.
\<close>

definition depth_below :: "filesystem \<Rightarrow> path \<Rightarrow> nat \<Rightarrow> bool" where
  "depth_below fs p d = (\<forall>q. d \<le> length q \<longrightarrow> fs (p @ q) = None)"

text \<open>
  The \<^verbatim>\<open>catch\<close> of \<^verbatim>\<open>getDirectorySize\<close>: an exception becomes the size 0.
\<close>

definition catch_zero :: "error + nat \<Rightarrow> (error + nat) option" where
  "catch_zero r = (case r of Inl e \<Rightarrow> Some (Inr 0) | Inr sz \<Rightarrow> Some (Inr sz))"

text \<open>
  What one entry of a directory adds to the size of the directory: the length of a file,
  and for a directory the size computed for it.
\<close>

definition entry_size :: "filesystem \<Rightarrow> path \<Rightarrow> string \<Rightarrow> nat" where
  "entry_size fs dirPath item =
     (case statSync fs (dirPath @ [item]) of
        Inl e \<Rightarrow> 0
      | Inr st \<Rightarrow>
          if isDirectory st then
            (case getDirectorySize fs (dirPath @ [item]) of Some (Inr n) \<Rightarrow> n | _ \<Rightarrow> 0)
          else stat_size st)"

text \<open>
  Two filesystems hold the same at \<open>p\<close> and everywhere below it.
\<close>

definition agree_below :: "filesystem \<Rightarrow> filesystem \<Rightarrow> path \<Rightarrow> bool" where
  "agree_below fs fs' p = (\<forall>q. fs (p @ q) = fs' (p @ q))"

text \<open>
  The directories that "Build outputs" stands for, the paths that a clean run may remove,
  and what a clean run keeps true of the files \<open>fs\<close> it has reached from the files \<open>fs0\<close>
  the catalog was computed on: the projects directory lists the same projects, and every
  build directory is either gone or as it was.
\<close>

definition scripts_of :: "path \<Rightarrow> string \<Rightarrow> path" where
  "scripts_of projectsDir project = projectsDir @ [project, ''behavior_pack'', ''scripts'']"

definition dist_of :: "path \<Rightarrow> string \<Rightarrow> path" where
  "dist_of projectsDir project = projectsDir @ [project, ''dist'']"





text \<open>
  The directories that removing "Build outputs" goes through, in the order of the
  projects: for every project its scripts directory and then its dist directory, those of
  them that exist.
\<close>

definition build_targets :: "filesystem \<Rightarrow> path \<Rightarrow> string list \<Rightarrow> path list" where
  "build_targets fs projectsDir projects =
     filter (existsSync fs)
       (concat (map (\<lambda>project. [scripts_of projectsDir project, dist_of projectsDir project])
          projects))"

text \<open>
  Removing directories one after the other, up to the first removal that fails: the
  removals attempted, which end with the one that failed, and the directories removed,
  which are those before it.
\<close>

fun attempted :: "(fs_call \<Rightarrow> string option) \<Rightarrow> path list \<Rightarrow> path list" where
  "attempted faults [] = []"
| "attempted faults (d # ds) =
     (if faults (Remove d) = None then d # attempted faults ds else [d])"

definition removed :: "(fs_call \<Rightarrow> string option) \<Rightarrow> path list \<Rightarrow> path list" where
  "removed faults ds = takeWhile (\<lambda>d. faults (Remove d) = None) ds"

text \<open>
  A run from \<open>w\<close> to \<open>w'\<close> with the result \<open>r\<close> has gone through the directories \<open>ds\<close> in
  this way, and has changed nothing else: it returned a byte count when every removal
  succeeded and was rejected otherwise.
\<close>

definition removals_done :: "path list \<Rightarrow> world \<Rightarrow> error + nat \<Rightarrow> world \<Rightarrow> bool" where
  "removals_done ds w r w' =
     (w' = w\<lparr>fs_log := fs_log w @ map Remove (attempted (fs_faults w) ds),
             files := foldl remove_tree (files w) (removed (fs_faults w) ds)\<rparr>
      \<and> ((\<exists>n. r = Inr n) \<longleftrightarrow> (\<forall>d \<in> set ds. fs_faults w (Remove d) = None)))"

text \<open>
  The git calls that resolve a dirty working tree, by the answer of the operator, and the
  git calls made between two worlds.
\<close>

definition resolution_calls :: "repository \<Rightarrow> update_answers \<Rightarrow> vcs_call list" where
  "resolution_calls r answers =
     (if isClean r then []
      else if continueUpdate answers = ''stash'' then [Stash]
      else if continueUpdate answers = ''discard'' then [Reset_hard, Clean_f_d]
      else [])"

definition calls_made :: "world \<Rightarrow> world \<Rightarrow> vcs_call list" where
  "calls_made w w' = drop (length (git_log w)) (git_log w')"

text \<open>
  The entries in the recursive tree of a directory, by their paths relative to it: the
  names the directory lists, and the entries of every listed directory below it.
\<close>

inductive entry_below :: "filesystem \<Rightarrow> path \<Rightarrow> path \<Rightarrow> bool" for fs :: filesystem where
  entry_here: "fs d = Some (Dir dsz names) \<Longrightarrow> x \<in> set names \<Longrightarrow> entry_below fs d [x]"
| entry_deeper:
    "fs d = Some (Dir dsz names) \<Longrightarrow> x \<in> set names \<Longrightarrow> entry_below fs (d @ [x]) q \<Longrightarrow>
     entry_below fs d (x # q)"

definition listed_below :: "filesystem \<Rightarrow> path \<Rightarrow> path \<Rightarrow> path set" where
  "listed_below fs dir rel = {rel @ q |q. entry_below fs (dir @ rel) q}"

text \<open>
  Some entry in the recursive tree has a name that ends in \<^verbatim>\<open>.js\<close>, the extension of a
  compiled script. The entry may be anything that a directory lists: a file, a directory
  or a link.
\<close>

definition has_js_entry :: "filesystem \<Rightarrow> path \<Rightarrow> bool" where
  "has_js_entry fs scriptsDir = (\<exists>q. entry_below fs scriptsDir q \<and> endsWith (last q) ''.js'')"

section \<open>Example worlds\<close>

text \<open>
  A directory \<^verbatim>\<open>ws\<close> that holds a file \<^verbatim>\<open>f\<close> of 7 bytes and a symbolic link \<^verbatim>\<open>self\<close>
  to the directory itself. The operating system follows at most 40 links when it resolves
  one path: a path \<^verbatim>\<open>ws/self/.../self\<close> is that directory again as long as it goes through
  40 links or fewer, and a path through more links does not resolve (\<^verbatim>\<open>ELOOP\<close>).
  \<open>through_links\<close> resolves what follows \<^verbatim>\<open>ws\<close> with the number of links still allowed.
\<close>

fun through_links :: "nat \<Rightarrow> path \<Rightarrow> node option" where
  "through_links allowed [] = Some (Dir 4096 [''f'', ''self''])"
| "through_links allowed (x # rest) =
     (if x = ''self'' then (case allowed of 0 \<Rightarrow> None | Suc fewer \<Rightarrow> through_links fewer rest)
      else if x = ''f'' \<and> rest = [] then Some (File 7)
      else None)"

definition self_link_fs :: filesystem where
  "self_link_fs p =
     (case p of
        [] \<Rightarrow> None
      | r # rest \<Rightarrow> if r = ''ws'' then through_links 40 rest else None)"

text \<open>A small tree: a file of 7 bytes, a dangling link and a subdirectory with 5 bytes.\<close>

definition sample_fs :: filesystem where
  "sample_fs =
     [[''ws''] \<mapsto> Dir 4096 [''a.txt'', ''sub'', ''gone''],
      [''ws'', ''a.txt''] \<mapsto> File 7,
      [''ws'', ''sub''] \<mapsto> Dir 4096 [''b.txt''],
      [''ws'', ''sub'', ''b.txt''] \<mapsto> File 5]"

text \<open>
  A workspace under \<^verbatim>\<open>home\<close> with a lock file of 3 bytes and two projects, whose compiled
  scripts take 10 and 20 bytes. In \<open>stuck_world\<close> the scripts directory of the first
  project cannot be removed, in \<open>late_stuck_world\<close> that of the second project; in
  \<open>calm_world\<close> every removal succeeds. The operator ticks
  "Build outputs" and "Package lock file" and confirms.
\<close>

definition quiet_repo :: repository where
  "quiet_repo =
     \<lparr>HEAD = ''c1'', origin_main = ''c1'', remote_main = ''c1'', modified = [], not_added = [],
      staged = [], stash_list = [], log_range = (\<lambda>a b. [])\<rparr>"

definition two_projects_fs :: filesystem where
  "two_projects_fs =
     [[''home''] \<mapsto> Dir 4096 [''workspace''],
      [''home'', ''workspace''] \<mapsto> Dir 4096 [''projects'', ''package-lock.json''],
      [''home'', ''workspace'', ''package-lock.json''] \<mapsto> File 3,
      [''home'', ''workspace'', ''projects''] \<mapsto> Dir 4096 [''alpha'', ''beta''],
      [''home'', ''workspace'', ''projects'', ''alpha''] \<mapsto> Dir 4096 [''behavior_pack''],
      [''home'', ''workspace'', ''projects'', ''alpha'', ''behavior_pack''] \<mapsto> Dir 4096 [''scripts''],
      [''home'', ''workspace'', ''projects'', ''alpha'', ''behavior_pack'', ''scripts''] \<mapsto> Dir 4096 [''main.js''],
      [''home'', ''workspace'', ''projects'', ''alpha'', ''behavior_pack'', ''scripts'', ''main.js''] \<mapsto> File 10,
      [''home'', ''workspace'', ''projects'', ''beta''] \<mapsto> Dir 4096 [''behavior_pack''],
      [''home'', ''workspace'', ''projects'', ''beta'', ''behavior_pack''] \<mapsto> Dir 4096 [''scripts''],
      [''home'', ''workspace'', ''projects'', ''beta'', ''behavior_pack'', ''scripts''] \<mapsto> Dir 4096 [''main.js''],
      [''home'', ''workspace'', ''projects'', ''beta'', ''behavior_pack'', ''scripts'', ''main.js''] \<mapsto> File 20]"

definition stuck_world :: world where
  "stuck_world =
     \<lparr>files = two_projects_fs,
      fs_faults = (\<lambda>c. if c = Remove [''home'', ''workspace'', ''projects'', ''alpha'', ''behavior_pack'', ''scripts'']
                        then Some ''EPERM'' else None),
      fs_log = [], repo = quiet_repo, git_faults = (\<lambda>c. None), git_log = [],
      worktree_after = (\<lambda>c fs. fs), npm_install_fails = False, clock = 0\<rparr>"

definition late_stuck_world :: world where
  "late_stuck_world =
     stuck_world\<lparr>fs_faults :=
       (\<lambda>c. if c = Remove [''home'', ''workspace'', ''projects'', ''beta'', ''behavior_pack'', ''scripts'']
            then Some ''EBUSY'' else None)\<rparr>"

definition select_build_and_lock :: clean_answers where
  "select_build_and_lock = \<lparr>itemsToClean = [''Build outputs'', ''Package lock file''], confirmClean = True\<rparr>"

definition calm_world :: world where
  "calm_world = stuck_world\<lparr>fs_faults := (\<lambda>c. None)\<rparr>"

text \<open>
  Worlds for the update: a tracked workspace with one modified and one untracked file,
  level with the remote (\<open>dirty_world\<close>) or one commit behind it (\<open>behind_world\<close>); a
  workspace without \<^verbatim>\<open>.git\<close> (\<open>untracked_world\<close>), and the same with a disk too full to
  take a copy (\<open>copy_fails_world\<close>). The operator answers \<^verbatim>\<open>stash\<close> or \<^verbatim>\<open>cancel\<close>, agrees to
  reinitialise and declines the update.
\<close>

definition tracked_fs :: filesystem where
  "tracked_fs =
     [[''home''] \<mapsto> Dir 4096 [''workspace''],
      [''home'', ''workspace''] \<mapsto> Dir 4096 [''.git'', ''package.json''],
      [''home'', ''workspace'', ''.git''] \<mapsto> Dir 4096 [],
      [''home'', ''workspace'', ''package.json''] \<mapsto> File 120]"

definition untracked_fs :: filesystem where
  "untracked_fs =
     [[''home''] \<mapsto> Dir 4096 [''workspace''],
      [''home'', ''workspace''] \<mapsto> Dir 4096 [''package.json''],
      [''home'', ''workspace'', ''package.json''] \<mapsto> File 120]"

definition dirty_repo :: repository where
  "dirty_repo =
     \<lparr>HEAD = ''c1'', origin_main = ''c1'', remote_main = ''c1'',
      modified = [''just.config.ts''], not_added = [''notes.txt''],
      staged = [], stash_list = [], log_range = (\<lambda>a b. [])\<rparr>"

definition dirty_world :: world where
  "dirty_world =
     \<lparr>files = tracked_fs, fs_faults = (\<lambda>c. None), fs_log = [], repo = dirty_repo,
      git_faults = (\<lambda>c. None), git_log = [], worktree_after = (\<lambda>c fs. fs),
      npm_install_fails = False, clock = 1700000000000\<rparr>"

definition behind_world :: world where
  "behind_world = dirty_world\<lparr>repo := dirty_repo\<lparr>remote_main := ''c2''\<rparr>\<rparr>"

definition untracked_world :: world where
  "untracked_world = dirty_world\<lparr>files := untracked_fs\<rparr>"

definition copy_fails_world :: world where
  "copy_fails_world =
     untracked_world\<lparr>fs_faults :=
       (\<lambda>c. case c of Copy src dest \<Rightarrow> Some ''ENOSPC'' | Remove p \<Rightarrow> None)\<rparr>"

definition no_init :: "world \<Rightarrow> (error + unit) \<times> world" where
  "no_init w = (Inr (), w)"

definition stash_answers :: update_answers where
  "stash_answers =
     \<lparr>reinitialize = True, continueUpdate = ''stash'', confirmUpdate = False,
      updateDependencies = False\<rparr>"

definition cancel_answers :: update_answers where
  "cancel_answers = stash_answers\<lparr>continueUpdate := ''cancel''\<rparr>"

text \<open>
  A workspace one commit behind the remote in which the operator has edited the tracked
  file \<^verbatim>\<open>just.config.ts\<close> (300 bytes, 250 as committed) and has written \<^verbatim>\<open>notes.txt\<close>
  (40 bytes), which was never added: \<^verbatim>\<open>reset --hard\<close> writes the committed file back and
  \<^verbatim>\<open>clean -f -d\<close> deletes the notes. The operator answers \<^verbatim>\<open>discard\<close> and declines the
  update.
\<close>

definition edited_fs :: filesystem where
  "edited_fs =
     [[''home''] \<mapsto> Dir 4096 [''workspace''],
      [''home'', ''workspace''] \<mapsto> Dir 4096 [''.git'', ''package.json'', ''just.config.ts'', ''notes.txt''],
      [''home'', ''workspace'', ''.git''] \<mapsto> Dir 4096 [],
      [''home'', ''workspace'', ''package.json''] \<mapsto> File 120,
      [''home'', ''workspace'', ''just.config.ts''] \<mapsto> File 300,
      [''home'', ''workspace'', ''notes.txt''] \<mapsto> File 40]"

definition edited_worktree_after :: "vcs_call \<Rightarrow> filesystem \<Rightarrow> filesystem" where
  "edited_worktree_after c fs =
     (if c = Reset_hard then fs([''home'', ''workspace'', ''just.config.ts''] \<mapsto> File 250)
      else if c = Clean_f_d then remove_tree fs [''home'', ''workspace'', ''notes.txt'']
      else fs)"

definition edited_world :: world where
  "edited_world = behind_world\<lparr>files := edited_fs, worktree_after := edited_worktree_after\<rparr>"

definition discard_answers :: update_answers where
  "discard_answers = stash_answers\<lparr>continueUpdate := ''discard''\<rparr>"

text \<open>
  The two pattern items of the catalog of the workspace with two projects.
\<close>

definition build_outputs_item :: cleanable_item where
  "build_outputs_item =
     \<lparr>name = ''Build outputs'', path = [''home'', ''workspace'', ''projects''],
      description = ''Compiled JavaScript files in all projects'',
      item_size = 30, isPattern = True\<rparr>"

definition temporary_files_item :: cleanable_item where
  "temporary_files_item =
     \<lparr>name = ''Temporary files'', path = [''home'', ''workspace''],
      description = ''Temporary and cache files'', item_size = 0, isPattern = True\<rparr>"

text \<open>
  Two projects and the template: one project with a compiled script two levels below its
  scripts directory, one with an empty scripts directory.
\<close>

definition status_fs :: filesystem where
  "status_fs =
     [[''home'', ''workspace''] \<mapsto> Dir 4096 [''projects''],
      [''home'', ''workspace'', ''projects''] \<mapsto> Dir 4096 [''built_one'', ''empty_one'', ''template''],
      [''home'', ''workspace'', ''projects'', ''template''] \<mapsto> Dir 4096 [],
      [''home'', ''workspace'', ''projects'', ''built_one''] \<mapsto> Dir 4096 [''behavior_pack''],
      [''home'', ''workspace'', ''projects'', ''built_one'', ''behavior_pack''] \<mapsto> Dir 4096 [''scripts''],
      [''home'', ''workspace'', ''projects'', ''built_one'', ''behavior_pack'', ''scripts'']
        \<mapsto> Dir 4096 [''lib''],
      [''home'', ''workspace'', ''projects'', ''built_one'', ''behavior_pack'', ''scripts'', ''lib'']
        \<mapsto> Dir 4096 [''main.js''],
      [''home'', ''workspace'', ''projects'', ''built_one'', ''behavior_pack'', ''scripts'', ''lib'',
       ''main.js''] \<mapsto> File 900,
      [''home'', ''workspace'', ''projects'', ''empty_one''] \<mapsto> Dir 4096 [''behavior_pack''],
      [''home'', ''workspace'', ''projects'', ''empty_one'', ''behavior_pack''] \<mapsto> Dir 4096 [''scripts''],
      [''home'', ''workspace'', ''projects'', ''empty_one'', ''behavior_pack'', ''scripts'']
        \<mapsto> Dir 4096 []]"

text \<open>
  One project whose scripts directory holds nothing but an empty directory with the name
  \<^verbatim>\<open>gen.js\<close>: there is no file anywhere in this workspace.
\<close>

definition named_js_fs :: filesystem where
  "named_js_fs =
     [[''home'', ''workspace''] \<mapsto> Dir 4096 [''projects''],
      [''home'', ''workspace'', ''projects''] \<mapsto> Dir 4096 [''d''],
      [''home'', ''workspace'', ''projects'', ''d''] \<mapsto> Dir 4096 [''behavior_pack''],
      [''home'', ''workspace'', ''projects'', ''d'', ''behavior_pack''] \<mapsto> Dir 4096 [''scripts''],
      [''home'', ''workspace'', ''projects'', ''d'', ''behavior_pack'', ''scripts'']
        \<mapsto> Dir 4096 [''gen.js''],
      [''home'', ''workspace'', ''projects'', ''d'', ''behavior_pack'', ''scripts'', ''gen.js'']
        \<mapsto> Dir 4096 []]"

definition no_manifest :: "path \<Rightarrow> string option" where
  "no_manifest p = None"

section \<open>Properties of the size computation\<close>

lemma getDirectorySize_missing: "fs p = None \<Longrightarrow> getDirectorySize fs p = Some (Inr 0)"
  by (subst getDirectorySize.simps) (simp add: existsSync_def)

lemma getDirectorySize_File: "fs p = Some (File n) \<Longrightarrow> getDirectorySize fs p = Some (Inr 0)"
  by (subst getDirectorySize.simps) (simp add: existsSync_def readdirSync_def)

lemma getDirectorySize_Sealed: "fs p = Some (Sealed dsz) \<Longrightarrow> getDirectorySize fs p = Some (Inr 0)"
  by (subst getDirectorySize.simps) (simp add: existsSync_def readdirSync_def)

lemma getDirectorySize_Dir:
  "fs p = Some (Dir dsz items) \<Longrightarrow>
   getDirectorySize fs p =
     Option.bind (getDirectorySize_items (getDirectorySize fs) fs p items 0) catch_zero"
  by (subst getDirectorySize.simps)
     (simp add: existsSync_def readdirSync_def catch_zero_def[abs_def])

lemma catch_zero_Inr: "catch_zero r = Some y \<Longrightarrow> \<exists>n. y = Inr n"
  by (cases r) (auto simp: catch_zero_def)

lemma getDirectorySize_never_rejects: "getDirectorySize fs p \<noteq> Some (Inl e)"
proof (cases "fs p")
  case None
  then show ?thesis by (simp add: getDirectorySize_missing)
next
  case (Some nd)
  show ?thesis
  proof (cases nd)
    case (File n)
    with Some show ?thesis by (simp add: getDirectorySize_File)
  next
    case (Dir dsz items)
    with Some show ?thesis
      by (auto simp: getDirectorySize_Dir split: Option.bind_splits dest: catch_zero_Inr)
  next
    case (Sealed dsz)
    with Some show ?thesis by (simp add: getDirectorySize_Sealed)
  qed
qed

lemma getFileSize_never_rejects: "getFileSize fs p \<noteq> Inl e"
  by (simp add: getFileSize_def split: sum.splits)

subsection \<open>Termination of the size computation\<close>

lemma depth_below_child: "depth_below fs p (Suc d) \<Longrightarrow> depth_below fs (p @ [x]) d"
  unfolding depth_below_def by simp

lemma getDirectorySize_items_returns:
  assumes "\<And>x. \<exists>y. rec (p @ [x]) = Some y"
  shows "\<exists>r. getDirectorySize_items rec fs p items sz = Some r"
proof (induction items arbitrary: sz)
  case Nil
  show ?case by simp
next
  case (Cons x xs)
  show ?case
  proof (cases "statSync fs (p @ [x])")
    case (Inl e)
    then show ?thesis by simp
  next
    case st: (Inr s)
    from assms obtain y where y: "rec (p @ [x]) = Some y" by blast
    show ?thesis
    proof (cases y)
      case (Inl e)
      with st y show ?thesis by (simp add: Cons.IH)
    next
      case (Inr n)
      with st y show ?thesis by (simp add: Cons.IH)
    qed
  qed
qed

lemma getDirectorySize_returns:
  "depth_below fs p d \<Longrightarrow> \<exists>n. getDirectorySize fs p = Some (Inr n)"
proof (induction d arbitrary: p)
  case 0
  then have "fs p = None" unfolding depth_below_def by (metis append_Nil2 le0)
  then show ?case by (simp add: getDirectorySize_missing)
next
  case (Suc d)
  show ?case
  proof (cases "fs p")
    case None
    then show ?thesis by (simp add: getDirectorySize_missing)
  next
    case (Some nd)
    show ?thesis
    proof (cases nd)
      case (File n)
      with Some show ?thesis by (simp add: getDirectorySize_File)
    next
      case (Sealed dsz)
      with Some show ?thesis by (simp add: getDirectorySize_Sealed)
    next
      case (Dir dsz items)
      have "\<exists>y. getDirectorySize fs (p @ [x]) = Some y" for x
        using Suc.IH[OF depth_below_child[OF Suc.prems]] by blast
      then obtain r where r: "getDirectorySize_items (getDirectorySize fs) fs p items 0 = Some r"
        using getDirectorySize_items_returns by blast
      have "\<exists>n. catch_zero r = Some (Inr n)" by (cases r) (simp_all add: catch_zero_def)
      with r Dir Some show ?thesis by (simp add: getDirectorySize_Dir)
    qed
  qed
qed

subsection \<open>The size of a directory as the sum over its entries\<close>

lemma getDirectorySize_items_sum:
  assumes "\<And>x. \<exists>n. getDirectorySize fs (p @ [x]) = Some (Inr n)"
    and "\<forall>x \<in> set items. \<exists>st. statSync fs (p @ [x]) = Inr st"
  shows "getDirectorySize_items (getDirectorySize fs) fs p items sz
           = Some (Inr (sz + sum_list (map (entry_size fs p) items)))"
  using assms(2)
proof (induction items arbitrary: sz)
  case Nil
  show ?case by simp
next
  case (Cons x xs)
  from Cons.prems obtain st where st: "statSync fs (p @ [x]) = Inr st" by auto
  from assms(1) obtain n where n: "getDirectorySize fs (p @ [x]) = Some (Inr n)" by blast
  from Cons.prems have rest: "\<forall>x \<in> set xs. \<exists>st. statSync fs (p @ [x]) = Inr st" by simp
  show ?case
  proof (cases "isDirectory st")
    case True
    with st n have "entry_size fs p x = n" by (simp add: entry_size_def)
    with True st n Cons.IH[OF rest] show ?thesis by (simp add: add.assoc)
  next
    case False
    with st have "entry_size fs p x = stat_size st" by (simp add: entry_size_def)
    with False st Cons.IH[OF rest] show ?thesis by (simp add: add.assoc)
  qed
qed

lemma getDirectorySize_items_throws:
  assumes "\<And>x. \<exists>n. getDirectorySize fs (p @ [x]) = Some (Inr n)"
    and "\<not> (\<forall>x \<in> set items. \<exists>st. statSync fs (p @ [x]) = Inr st)"
  shows "\<exists>e. getDirectorySize_items (getDirectorySize fs) fs p items sz = Some (Inl e)"
  using assms(2)
proof (induction items arbitrary: sz)
  case Nil
  then show ?case by simp
next
  case (Cons x xs)
  show ?case
  proof (cases "statSync fs (p @ [x])")
    case (Inl e)
    then show ?thesis by simp
  next
    case (Inr st)
    with Cons.prems have rest: "\<not> (\<forall>x \<in> set xs. \<exists>st. statSync fs (p @ [x]) = Inr st)" by auto
    from assms(1) obtain n where n: "getDirectorySize fs (p @ [x]) = Some (Inr n)" by blast
    from Inr n Cons.IH[OF rest] show ?thesis by simp
  qed
qed

subsection \<open>The directory that links to itself\<close>

lemma through_links_replicate:
  "n \<le> allowed \<Longrightarrow>
   through_links allowed (replicate n ''self'' @ rest) = through_links (allowed - n) rest"
proof (induction n arbitrary: allowed)
  case 0
  show ?case by simp
next
  case (Suc n)
  then obtain fewer where "allowed = Suc fewer" by (cases allowed) auto
  with Suc show ?case by simp
qed

lemma through_links_deep: "allowed + 2 \<le> length q \<Longrightarrow> through_links allowed q = None"
proof (induction q arbitrary: allowed)
  case Nil
  then show ?case by simp
next
  case (Cons x q)
  show ?case
  proof (cases allowed)
    case 0
    with Cons.prems show ?thesis by (cases q) auto
  next
    case (Suc fewer)
    with Cons.prems have "fewer + 2 \<le> length q" by simp
    from Cons.IH[OF this] Suc Cons.prems show ?thesis by (cases q) auto
  qed
qed

lemma self_link_fs_depth: "depth_below self_link_fs [''ws''] 42"
  unfolding depth_below_def by (simp add: self_link_fs_def through_links_deep)

lemma self_link_fs_level:
  assumes "k \<le> 40"
  shows "getDirectorySize self_link_fs (''ws'' # replicate (40 - k) ''self'') = Some (Inr (7 * k))"
  using assms
proof (induction k)
  case 0
  let ?p = "''ws'' # replicate 40 ''self''"
  have here: "self_link_fs ?p = Some (Dir 4096 [''f'', ''self''])"
    using through_links_replicate[where n = 40 and allowed = 40 and rest = "[]"]
    by (simp add: self_link_fs_def)
  have f: "statSync self_link_fs (?p @ [''f'']) = Inr \<lparr>isDirectory = False, stat_size = 7\<rparr>"
    using through_links_replicate[where n = 40 and allowed = 40 and rest = "[''f'']"]
    by (simp add: self_link_fs_def statSync_def)
  have self: "statSync self_link_fs (?p @ [''self'']) = Inl (Error ''ENOENT'')"
    using through_links_replicate[where n = 40 and allowed = 40 and rest = "[''self'']"]
    by (simp add: self_link_fs_def statSync_def)
  from f self show ?case
    by (simp add: getDirectorySize_Dir[where fs = self_link_fs and p = ?p, OF here] catch_zero_def)
next
  case (Suc k)
  let ?n = "40 - Suc k"
  let ?p = "''ws'' # replicate ?n ''self''"
  from Suc.prems have n: "?n \<le> 40" and next_level: "Suc ?n = 40 - k" by simp_all
  have here: "self_link_fs ?p = Some (Dir 4096 [''f'', ''self''])"
    using through_links_replicate[where n = ?n and allowed = 40 and rest = "[]"] n
    by (simp add: self_link_fs_def)
  have f: "statSync self_link_fs (?p @ [''f'']) = Inr \<lparr>isDirectory = False, stat_size = 7\<rparr>"
    using through_links_replicate[where n = ?n and allowed = 40 and rest = "[''f'']"] n Suc.prems
    by (simp add: self_link_fs_def statSync_def)
  have "?p @ [''self''] = ''ws'' # replicate (Suc ?n) ''self''"
    by (simp add: replicate_append_same)
  also have "\<dots> = ''ws'' # replicate (40 - k) ''self''"
    by (simp only: next_level)
  finally have child_path: "?p @ [''self''] = ''ws'' # replicate (40 - k) ''self''" .
  have child: "getDirectorySize self_link_fs (?p @ [''self'']) = Some (Inr (7 * k))"
    using Suc.IH Suc.prems child_path by simp
  have self: "statSync self_link_fs (?p @ [''self''])
                = Inr \<lparr>isDirectory = True, stat_size = 4096\<rparr>"
    using through_links_replicate[where n = "40 - k" and allowed = 40 and rest = "[]"]
    by (simp only: child_path) (simp add: self_link_fs_def statSync_def)
  from f self child show ?case
    by (subst getDirectorySize_Dir[where fs = self_link_fs and p = ?p, OF here])
       (simp add: catch_zero_def)
qed

declare getDirectorySize.simps [code]

lemma sample_fs_depth: "depth_below sample_fs [''ws''] 3"
  unfolding depth_below_def sample_fs_def
  by (auto split: if_splits)

text \<open>
  Claim C5, as stated: a directory met again through a cycle of symbolic links counts 0
  instead of being traversed again. The function keeps no record of the directories it is
  in. On the directory that holds one file of 7 bytes and a link to itself it goes through
  the link again and again, until the operating system stops resolving the path: the file
  is counted 40 times, and the directory met again through the link adds 273 bytes, not 0.
\<close>

theorem C5_self_link_counted_again:
  "getDirectorySize self_link_fs [''ws''] = Some (Inr 280)
   \<and> entry_size self_link_fs [''ws''] ''f'' = 7
   \<and> entry_size self_link_fs [''ws''] ''self'' = 273"
proof -
  have top: "getDirectorySize self_link_fs [''ws''] = Some (Inr 280)"
    using self_link_fs_level[of 40] by simp
  have "getDirectorySize self_link_fs (''ws'' # replicate (40 - 39) ''self'') = Some (Inr (7 * 39))"
    by (rule self_link_fs_level) simp
  then have below: "getDirectorySize self_link_fs [''ws'', ''self''] = Some (Inr 273)"
    by simp
  from top below show ?thesis
    by (simp add: entry_size_def statSync_def self_link_fs_def)
qed

text \<open>
  Claim C5, amended: the size computation returns a byte count, never an exception, on
  every directory tree of finite depth. It keeps no record of visited directories: when
  every entry of the directory can be examined, the size is the sum over the entries of the
  length of each file and of the size computed for each subdirectory, whether or not that
  subdirectory was met before; when the directory cannot be listed, or one of its entries
  cannot be examined, the size is 0.
\<close>

theorem C5_size_sums_every_entry:
  assumes "depth_below fs p d"
  shows "\<exists>n. getDirectorySize fs p = Some (Inr n)
           \<and> (\<forall>items. readdirSync fs p = Inr items \<longrightarrow>
                n = (if \<forall>x \<in> set items. \<exists>st. statSync fs (p @ [x]) = Inr st
                     then sum_list (map (entry_size fs p) items) else 0))
           \<and> ((\<exists>e. readdirSync fs p = Inl e) \<longrightarrow> n = 0)"
proof -
  have children: "\<exists>n. getDirectorySize fs (p @ [x]) = Some (Inr n)" for x
  proof (cases d)
    case 0
    with assms have "fs (p @ [x]) = None" unfolding depth_below_def by simp
    then show ?thesis by (simp add: getDirectorySize_missing)
  next
    case (Suc d')
    with assms have "depth_below fs (p @ [x]) d'" by (simp add: depth_below_child)
    then show ?thesis by (rule getDirectorySize_returns)
  qed
  show ?thesis
  proof (cases "fs p")
    case None
    then show ?thesis by (simp add: getDirectorySize_missing readdirSync_def)
  next
    case (Some nd)
    show ?thesis
    proof (cases nd)
      case (File n)
      with Some show ?thesis by (simp add: getDirectorySize_File readdirSync_def)
    next
      case (Sealed dsz)
      with Some show ?thesis by (simp add: getDirectorySize_Sealed readdirSync_def)
    next
      case (Dir dsz items)
      with Some have here: "fs p = Some (Dir dsz items)" by simp
      then have rd: "readdirSync fs p = Inr items" by (simp add: readdirSync_def)
      have no_error: "readdirSync fs p \<noteq> Inl e" for e using rd by simp
      show ?thesis
      proof (cases "\<forall>x \<in> set items. \<exists>st. statSync fs (p @ [x]) = Inr st")
        case True
        from getDirectorySize_items_sum[OF children True, of 0]
        have size: "getDirectorySize fs p = Some (Inr (sum_list (map (entry_size fs p) items)))"
          by (simp add: getDirectorySize_Dir[where fs = fs and p = p, OF here] catch_zero_def)
        have "sum_list (map (entry_size fs p) items)
                = (if \<forall>x \<in> set items'. \<exists>st. statSync fs (p @ [x]) = Inr st
                   then sum_list (map (entry_size fs p) items') else 0)"
          if "readdirSync fs p = Inr items'" for items'
        proof -
          from that rd have same: "items' = items" by simp
          show ?thesis unfolding same by (rule if_P[OF True, symmetric])
        qed
        with size no_error show ?thesis by blast
      next
        case False
        from getDirectorySize_items_throws[OF children False, of 0]
        have size: "getDirectorySize fs p = Some (Inr 0)"
          by (auto simp: getDirectorySize_Dir[where fs = fs and p = p, OF here] catch_zero_def)
        have "0 = (if \<forall>x \<in> set items'. \<exists>st. statSync fs (p @ [x]) = Inr st
                   then sum_list (map (entry_size fs p) items') else 0)"
          if "readdirSync fs p = Inr items'" for items'
        proof -
          from that rd have same: "items' = items" by simp
          show ?thesis unfolding same by (rule if_not_P[OF False, symmetric])
        qed
        with size no_error show ?thesis by blast
      qed
    qed
  qed
qed

theorem C5_size_sums_every_entry_witness:
  "depth_below self_link_fs [''ws''] 42
   \<and> readdirSync self_link_fs [''ws''] = Inr [''f'', ''self'']
   \<and> getDirectorySize self_link_fs [''ws'']
       = Some (Inr (entry_size self_link_fs [''ws''] ''f'' + entry_size self_link_fs [''ws''] ''self''))
   \<and> depth_below sample_fs [''ws''] 3
   \<and> readdirSync sample_fs [''ws''] = Inr [''a.txt'', ''sub'', ''gone'']
   \<and> statSync sample_fs [''ws'', ''gone''] = Inl (Error ''ENOENT'')
   \<and> getDirectorySize sample_fs [''ws''] = Some (Inr 0)"
proof -
  have rd: "readdirSync self_link_fs [''ws''] = Inr [''f'', ''self'']"
    by (simp add: readdirSync_def self_link_fs_def)
  have ok: "\<forall>x \<in> set [''f'', ''self'']. \<exists>st. statSync self_link_fs ([''ws''] @ [x]) = Inr st"
    by (simp add: statSync_def self_link_fs_def)
  have rd2: "readdirSync sample_fs [''ws''] = Inr [''a.txt'', ''sub'', ''gone'']"
    by (simp add: readdirSync_def sample_fs_def)
  have gone: "statSync sample_fs [''ws'', ''gone''] = Inl (Error ''ENOENT'')"
    by (simp add: statSync_def sample_fs_def)
  then have bad: "\<not> (\<forall>x \<in> set [''a.txt'', ''sub'', ''gone'']. \<exists>st. statSync sample_fs ([''ws''] @ [x]) = Inr st)"
    by simp
  from C5_size_sums_every_entry[OF self_link_fs_depth] rd ok
  have one: "getDirectorySize self_link_fs [''ws'']
       = Some (Inr (entry_size self_link_fs [''ws''] ''f'' + entry_size self_link_fs [''ws''] ''self''))"
    by auto
  from C5_size_sums_every_entry[OF sample_fs_depth] rd2 bad
  have two: "getDirectorySize sample_fs [''ws''] = Some (Inr 0)"
    by auto
  from self_link_fs_depth rd one sample_fs_depth rd2 gone two show ?thesis by simp
qed

lemma getDirectorySize_items_stat_error:
  assumes "x \<in> set items" and "statSync fs (p @ [x]) = Inl e"
    and "getDirectorySize_items rec fs p items sz = Some r"
  shows "\<exists>e'. r = Inl e'"
  using assms
proof (induction items arbitrary: sz)
  case Nil
  then show ?case by simp
next
  case (Cons y ys)
  show ?case
  proof (cases "statSync fs (p @ [y])")
    case (Inl e')
    with Cons.prems(3) show ?thesis by auto
  next
    case st: (Inr s)
    with Cons.prems(1,2) have mem: "x \<in> set ys" by auto
    show ?thesis
    proof (cases "isDirectory s")
      case False
      with st Cons.prems(3)
      have "getDirectorySize_items rec fs p ys (sz + stat_size s) = Some r" by simp
      from Cons.IH[OF mem Cons.prems(2) this] show ?thesis .
    next
      case True
      with st Cons.prems(3) obtain y' where y': "rec (p @ [y]) = Some y'"
        and rest: "(case y' of Inl e \<Rightarrow> Some (Inl e)
                    | Inr n \<Rightarrow> getDirectorySize_items rec fs p ys (sz + n)) = Some r"
        by (simp split: Option.bind_splits)
      show ?thesis
      proof (cases y')
        case (Inl e')
        with rest show ?thesis by auto
      next
        case (Inr n)
        with rest have "getDirectorySize_items rec fs p ys (sz + n) = Some r" by simp
        from Cons.IH[OF mem Cons.prems(2) this] show ?thesis .
      qed
    qed
  qed
qed

lemma getDirectorySize_stat_error:
  assumes "readdirSync fs p = Inr items" and "x \<in> set items"
    and "statSync fs (p @ [x]) = Inl e" and "getDirectorySize fs p = Some r"
  shows "r = Inr 0"
proof -
  from assms(1) obtain dsz where dir: "fs p = Some (Dir dsz items)"
    by (auto simp: readdirSync_def split: option.splits node.splits)
  with assms(4) obtain r' where
    loop: "getDirectorySize_items (getDirectorySize fs) fs p items 0 = Some r'"
    and r: "catch_zero r' = Some r"
    by (auto simp: getDirectorySize_Dir split: Option.bind_splits)
  from getDirectorySize_items_stat_error[OF assms(2,3) loop] obtain e' where "r' = Inl e'" ..
  with r show ?thesis by (simp add: catch_zero_def)
qed

lemma getDirectorySize_readdir_error:
  assumes "readdirSync fs p = Inl e"
  shows "getDirectorySize fs p = Some (Inr 0)"
  using assms
  by (auto simp: readdirSync_def getDirectorySize_missing getDirectorySize_File
        getDirectorySize_Sealed split: option.splits node.splits)

text \<open>
  Claim C9: for a path that does not exist the existence check is false and both size
  functions return 0. An error inside the size computation is swallowed: a directory that
  cannot be listed has size 0, a directory with an entry that \<^verbatim>\<open>statSync\<close> throws on has
  size 0 whenever the call returns, and a file that cannot be examined has size 0. Neither
  function ever rejects, so no exception of theirs reaches the report around them.
\<close>

theorem C9_missing_paths_and_swallowed_errors:
  "(fs p = None \<longrightarrow>
      \<not> existsSync fs p \<and> getDirectorySize fs p = Some (Inr 0) \<and> getFileSize fs p = Inr 0)
   \<and> (readdirSync fs p = Inl e \<longrightarrow> getDirectorySize fs p = Some (Inr 0))
   \<and> (readdirSync fs p = Inr items \<and> x \<in> set items \<and> statSync fs (p @ [x]) = Inl e
        \<and> getDirectorySize fs p = Some r \<longrightarrow> r = Inr 0)
   \<and> (statSync fs p = Inl e \<longrightarrow> getFileSize fs p = Inr 0)
   \<and> getDirectorySize fs p \<noteq> Some (Inl e') \<and> getFileSize fs p \<noteq> Inl e'"
proof -
  have "statSync fs p = Inl e \<longrightarrow> getFileSize fs p = Inr 0"
    by (simp add: getFileSize_def)
  moreover have "fs p = None \<longrightarrow> getFileSize fs p = Inr 0"
    by (simp add: getFileSize_def existsSync_def)
  ultimately show ?thesis
    using getDirectorySize_stat_error[of fs p items x e r]
      getDirectorySize_readdir_error[of fs p e]
      getDirectorySize_never_rejects[of fs p e'] getFileSize_never_rejects[of fs p e']
    by (simp add: getDirectorySize_missing existsSync_def)
qed

theorem C9_missing_paths_and_swallowed_errors_witness:
  "(sample_fs [''ws'', ''nothing''] = None
      \<and> \<not> existsSync sample_fs [''ws'', ''nothing'']
      \<and> getDirectorySize sample_fs [''ws'', ''nothing''] = Some (Inr 0)
      \<and> getFileSize sample_fs [''ws'', ''nothing''] = Inr 0)
   \<and> (readdirSync sample_fs [''ws'', ''a.txt''] = Inl (Error ''ENOTDIR'')
      \<and> getDirectorySize sample_fs [''ws'', ''a.txt''] = Some (Inr 0))
   \<and> (readdirSync sample_fs [''ws''] = Inr [''a.txt'', ''sub'', ''gone'']
      \<and> ''gone'' \<in> set [''a.txt'', ''sub'', ''gone'']
      \<and> statSync sample_fs ([''ws''] @ [''gone'']) = Inl (Error ''ENOENT'')
      \<and> getDirectorySize sample_fs [''ws''] = Some (Inr 0))
   \<and> (statSync sample_fs [''ws'', ''gone''] = Inl (Error ''ENOENT'')
      \<and> getFileSize sample_fs [''ws'', ''gone''] = Inr 0)"
proof -
  have a: "sample_fs [''ws'', ''nothing''] = None" by (simp add: sample_fs_def)
  have b: "readdirSync sample_fs [''ws'', ''a.txt''] = Inl (Error ''ENOTDIR'')"
    by (simp add: sample_fs_def readdirSync_def)
  have c: "readdirSync sample_fs [''ws''] = Inr [''a.txt'', ''sub'', ''gone'']"
    by (simp add: sample_fs_def readdirSync_def)
  have d: "statSync sample_fs ([''ws''] @ [''gone'']) = Inl (Error ''ENOENT'')"
    by (simp add: sample_fs_def statSync_def)
  have e: "getDirectorySize sample_fs [''ws''] = Some (Inr 0)" by code_simp
  from C9_missing_paths_and_swallowed_errors[where fs = sample_fs and p = "[''ws'', ''nothing'']"] a
    C9_missing_paths_and_swallowed_errors[where fs = sample_fs and p = "[''ws'', ''a.txt'']" and e = "Error ''ENOTDIR''"] b
    C9_missing_paths_and_swallowed_errors[where fs = sample_fs and p = "[''ws'']" and items = "[''a.txt'', ''sub'', ''gone'']"
         and x = "''gone''" and e = "Error ''ENOENT''" and r = "Inr 0"]
    C9_missing_paths_and_swallowed_errors[where fs = sample_fs and p = "[''ws'', ''gone'']" and e = "Error ''ENOENT''"]
    c d e
  show ?thesis by simp
qed

section \<open>Sizes do not depend on what lies elsewhere\<close>

lemma agree_below_refl: "agree_below fs fs p"
  by (simp add: agree_below_def)

lemma agree_below_self: "agree_below fs fs' p \<Longrightarrow> fs' p = fs p"
  unfolding agree_below_def by (metis append_Nil2)

lemma agree_below_child: "agree_below fs fs' p \<Longrightarrow> agree_below fs fs' (p @ [x])"
  unfolding agree_below_def by simp

lemma agree_below_sym: "agree_below fs fs' p \<Longrightarrow> agree_below fs' fs p"
  unfolding agree_below_def by simp

lemma agree_below_trans: "agree_below fs fs' p \<Longrightarrow> agree_below fs' fs'' p \<Longrightarrow> agree_below fs fs'' p"
  unfolding agree_below_def by simp

lemma statSync_cong: "fs' p = fs p \<Longrightarrow> statSync fs' p = statSync fs p"
  by (simp add: statSync_def)



lemma remove_tree_other: "\<not> prefix r q \<Longrightarrow> q \<noteq> butlast r \<Longrightarrow> remove_tree fs r q = fs q"
  by (simp add: remove_tree_def)


lemma prefix_butlast: "prefix d (butlast r) \<Longrightarrow> prefix d r"
  by (metis prefix_order.trans prefixeq_butlast)

lemma remove_tree_agree:
  assumes "\<not> prefix d r" and "\<not> prefix r d"
  shows "agree_below fs (remove_tree fs r) d"
  unfolding agree_below_def
proof
  fix q
  have "\<not> prefix r (d @ q)"
  proof
    assume "prefix r (d @ q)"
    moreover have "prefix d (d @ q)" by simp
    ultimately have "prefix r d \<or> prefix d r" by (rule prefix_same_cases)
    with assms show False by blast
  qed
  moreover have "d @ q \<noteq> butlast r"
  proof
    assume "d @ q = butlast r"
    then have "prefix d (butlast r)" by (metis prefixI)
    then have "prefix d r" by (rule prefix_butlast)
    with assms show False by blast
  qed
  ultimately show "fs (d @ q) = remove_tree fs r (d @ q)"
    by (simp add: remove_tree_other)
qed

lemma items_transfer:
  assumes rec: "\<And>x y. f (p @ [x]) = Some y \<Longrightarrow> g (p @ [x]) = Some y"
    and st: "\<And>x. statSync fs' (p @ [x]) = statSync fs (p @ [x])"
  shows "getDirectorySize_items f fs p items sz = Some r \<Longrightarrow>
         getDirectorySize_items g fs' p items sz = Some r"
proof (induction items arbitrary: sz)
  case Nil
  then show ?case by simp
next
  case (Cons x xs)
  show ?case
  proof (cases "statSync fs (p @ [x])")
    case (Inl e)
    with Cons.prems st[of x] show ?thesis by simp
  next
    case stat: (Inr s)
    show ?thesis
    proof (cases "isDirectory s")
      case False
      with stat Cons.prems
      have "getDirectorySize_items f fs p xs (sz + stat_size s) = Some r" by simp
      then have "getDirectorySize_items g fs' p xs (sz + stat_size s) = Some r"
        by (rule Cons.IH)
      with stat False st[of x] show ?thesis by simp
    next
      case True
      with stat Cons.prems obtain y where fy: "f (p @ [x]) = Some y"
        and rest: "(case y of Inl e \<Rightarrow> Some (Inl e)
                    | Inr n \<Rightarrow> getDirectorySize_items f fs p xs (sz + n)) = Some r"
        by (simp split: Option.bind_splits)
      from fy have gy: "g (p @ [x]) = Some y" by (rule rec)
      show ?thesis
      proof (cases y)
        case (Inl e)
        with rest have "r = Inl e" by simp
        with Inl gy stat True st[of x] show ?thesis by simp
      next
        case (Inr n)
        with rest have "getDirectorySize_items f fs p xs (sz + n) = Some r" by simp
        then have "getDirectorySize_items g fs' p xs (sz + n) = Some r"
          by (rule Cons.IH)
        with gy stat True st[of x] Inr show ?thesis by simp
      qed
    qed
  qed
qed

lemma getDirectorySize_frame_step:
  assumes IH: "\<And>fs p y fs'. f fs p = Some y \<Longrightarrow> agree_below fs fs' p \<Longrightarrow>
                 getDirectorySize fs' p = Some y"
    and body: "(if \<not> existsSync fs p then Some (Inr 0)
                else case readdirSync fs p of
                       Inl e \<Rightarrow> Some (Inr 0)
                     | Inr items \<Rightarrow>
                         Option.bind (getDirectorySize_items (f fs) fs p items 0)
                           (\<lambda>r. case r of Inl e \<Rightarrow> Some (Inr 0) | Inr sz \<Rightarrow> Some (Inr sz))) = Some y"
    and ag: "agree_below fs fs' p"
  shows "getDirectorySize fs' p = Some y"
proof -
  from ag have same: "fs' p = fs p" by (rule agree_below_self)
  show ?thesis
  proof (cases "fs p")
    case None
    with body same show ?thesis
      by (simp add: getDirectorySize_missing existsSync_def)
  next
    case (Some nd)
    show ?thesis
    proof (cases nd)
      case (File n)
      with Some body same show ?thesis
        by (simp add: getDirectorySize_File existsSync_def readdirSync_def)
    next
      case (Sealed dsz)
      with Some body same show ?thesis
        by (simp add: getDirectorySize_Sealed existsSync_def readdirSync_def)
    next
      case (Dir dsz items)
      with Some body obtain r where
        r: "getDirectorySize_items (f fs) fs p items 0 = Some r"
        and y: "catch_zero r = Some y"
        by (simp add: existsSync_def readdirSync_def catch_zero_def[abs_def]
                 split: Option.bind_splits)
      have "getDirectorySize_items (getDirectorySize fs') fs' p items 0 = Some r"
      proof (rule items_transfer[OF _ _ r])
        fix x y assume "f fs (p @ [x]) = Some y"
        then show "getDirectorySize fs' (p @ [x]) = Some y"
          using agree_below_child[OF ag] by (rule IH)
      next
        fix x show "statSync fs' (p @ [x]) = statSync fs (p @ [x])"
          using agree_below_self[OF agree_below_child[OF ag]] by (rule statSync_cong)
      qed
      with Dir Some same y show ?thesis
        by (simp add: getDirectorySize_Dir)
    qed
  qed
qed

lemma getDirectorySize_frame_Some:
  assumes "getDirectorySize fs p = Some y" and "agree_below fs fs' p"
  shows "getDirectorySize fs' p = Some y"
  using assms
proof (induct arbitrary: fs' rule: getDirectorySize.raw_induct[rotated, consumes 1])
  case (1 f fs p y)
  from 1(1) 1(2) 1(3) show ?case by (rule getDirectorySize_frame_step)
qed

section \<open>Properties of cleanWorkspace\<close>















lemma cleanableItems_shape:
  assumes "cleanableItems fs ws = Some (Inr items)"
  shows "\<exists>s1 s2 s3 s5.
           getBuildOutputSize fs ws = Some (Inr s3) \<and>
           items =
             [\<lparr>name = ''Node modules'', path = ws @ [''node_modules''],
               description = ''Dependencies cache (can be restored with npm install)'',
               item_size = s1, isPattern = False\<rparr>,
              \<lparr>name = ''Package lock file'', path = ws @ [''package-lock.json''],
               description = ''Dependency lock file (will be regenerated)'',
               item_size = s2, isPattern = False\<rparr>,
              \<lparr>name = ''Build outputs'', path = ws @ [''projects''],
               description = ''Compiled JavaScript files in all projects'',
               item_size = s3, isPattern = True\<rparr>,
              \<lparr>name = ''Temporary files'', path = ws,
               description = ''Temporary and cache files'',
               item_size = 0, isPattern = True\<rparr>,
              \<lparr>name = ''VS Code settings'', path = ws @ [''.vscode''],
               description = ''VS Code workspace settings (will reset to defaults)'',
               item_size = s5, isPattern = False\<rparr>]"
  using assms
  by (auto simp: cleanableItems_def await_def getTempFilesSize_def
           split: option.splits sum.splits)


lemma stuck_build_outputs:
  "cleanableItems (files stuck_world) [''home'', ''workspace''] =
     Some (Inr
         [\<lparr>name = ''Node modules'', path = [''home'', ''workspace''] @ [''node_modules''],
           description = ''Dependencies cache (can be restored with npm install)'',
           item_size = 0, isPattern = False\<rparr>,
          \<lparr>name = ''Package lock file'', path = [''home'', ''workspace''] @ [''package-lock.json''],
           description = ''Dependency lock file (will be regenerated)'',
           item_size = 3, isPattern = False\<rparr>,
          \<lparr>name = ''Build outputs'', path = [''home'', ''workspace''] @ [''projects''],
           description = ''Compiled JavaScript files in all projects'',
           item_size = 30, isPattern = True\<rparr>,
          \<lparr>name = ''Temporary files'', path = [''home'', ''workspace''],
           description = ''Temporary and cache files'',
           item_size = 0, isPattern = True\<rparr>,
          \<lparr>name = ''VS Code settings'', path = [''home'', ''workspace''] @ [''.vscode''],
           description = ''VS Code workspace settings (will reset to defaults)'',
           item_size = 0, isPattern = False\<rparr>])"
  by code_simp



lemma calm_temporary_files:
  "cleanPatternItem temporary_files_item [''home'', ''workspace''] calm_world
     = Some (Inr 0, calm_world)"
  by (simp add: cleanPatternItem_def temporary_files_item_def)



lemma attempted_all:
  "\<forall>d \<in> set ds. faults (Remove d) = None \<Longrightarrow> attempted faults ds = ds"
  by (induction ds) auto

lemma removed_all:
  "\<forall>d \<in> set ds. faults (Remove d) = None \<Longrightarrow> removed faults ds = ds"
  by (simp add: removed_def)

lemma attempted_append:
  "attempted faults (as @ bs) =
     (if \<forall>d \<in> set as. faults (Remove d) = None then as @ attempted faults bs
      else attempted faults as)"
  by (induction as) auto

lemma removed_append:
  "removed faults (as @ bs) =
     (if \<forall>d \<in> set as. faults (Remove d) = None then as @ removed faults bs
      else removed faults as)"
  by (induction as) (auto simp: removed_def)

lemma removed_subset: "set (removed faults ds) \<subseteq> set ds"
  by (auto simp: removed_def dest: set_takeWhileD)

lemma removals_done_none: "removals_done [] w (Inr n) w"
  by (simp add: removals_done_def removed_def)

lemma removals_done_then:
  assumes "removals_done as w (Inr n) w1" and "removals_done bs w1 r w'"
  shows "removals_done (as @ bs) w r w'"
proof -
  from assms(1) have ok: "\<forall>d \<in> set as. fs_faults w (Remove d) = None"
    and w1: "w1 = w\<lparr>fs_log := fs_log w @ map Remove (attempted (fs_faults w) as),
                     files := foldl remove_tree (files w) (removed (fs_faults w) as)\<rparr>"
    by (auto simp: removals_done_def)
  from w1 have same: "fs_faults w1 = fs_faults w"
    and log1: "fs_log w1 = fs_log w @ map Remove as"
    and files1: "files w1 = foldl remove_tree (files w) as"
    by (simp_all add: attempted_all[OF ok] removed_all[OF ok])
  from assms(2) have w': "w' = w1\<lparr>fs_log := fs_log w1 @ map Remove (attempted (fs_faults w1) bs),
                     files := foldl remove_tree (files w1) (removed (fs_faults w1) bs)\<rparr>"
    and r: "(\<exists>n. r = Inr n) \<longleftrightarrow> (\<forall>d \<in> set bs. fs_faults w1 (Remove d) = None)"
    by (auto simp: removals_done_def)
  have "w' = w\<lparr>fs_log := fs_log w @ map Remove (attempted (fs_faults w) (as @ bs)),
               files := foldl remove_tree (files w) (removed (fs_faults w) (as @ bs))\<rparr>"
    unfolding w' same log1 files1
    by (simp add: w1 attempted_append removed_append ok attempted_all[OF ok] removed_all[OF ok])
  moreover have "(\<exists>n. r = Inr n) \<longleftrightarrow> (\<forall>d \<in> set (as @ bs). fs_faults w (Remove d) = None)"
    using r ok same by auto
  ultimately show ?thesis by (simp only: removals_done_def simp_thms)
qed

lemma removals_done_failed:
  assumes "removals_done as w (Inl e) w1"
  shows "removals_done (as @ bs) w (Inl e) w1"
proof -
  from assms have bad: "\<not> (\<forall>d \<in> set as. fs_faults w (Remove d) = None)"
    and w1: "w1 = w\<lparr>fs_log := fs_log w @ map Remove (attempted (fs_faults w) as),
                     files := foldl remove_tree (files w) (removed (fs_faults w) as)\<rparr>"
    by (auto simp: removals_done_def)
  from bad have "attempted (fs_faults w) (as @ bs) = attempted (fs_faults w) as"
    and "removed (fs_faults w) (as @ bs) = removed (fs_faults w) as"
    by (simp_all only: attempted_append removed_append if_False)
  with w1 bad show ?thesis by (auto simp: removals_done_def)
qed

lemma foldl_remove_tree_agree:
  assumes "\<forall>r \<in> set rs. \<not> prefix d r \<and> \<not> prefix r d" and "agree_below fs0 fs d"
  shows "agree_below fs0 (foldl remove_tree fs rs) d"
  using assms
proof (induction rs arbitrary: fs)
  case Nil
  then show ?case by simp
next
  case (Cons r rs)
  from Cons.prems(1) have "\<not> prefix d r" "\<not> prefix r d" by simp_all
  then have "agree_below fs (remove_tree fs r) d" by (rule remove_tree_agree)
  with Cons.prems(2) have "agree_below fs0 (remove_tree fs r) d" by (rule agree_below_trans)
  with Cons.prems(1) have "agree_below fs0 (foldl remove_tree (remove_tree fs r) rs) d"
    by (intro Cons.IH) simp_all
  then show ?case by simp
qed

lemma removals_done_agree:
  assumes "removals_done ds w r w'" and "agree_below fs0 (files w) d"
    and "\<forall>r \<in> set ds. \<not> prefix d r \<and> \<not> prefix r d"
  shows "agree_below fs0 (files w') d"
proof -
  from assms(1) have "files w' = foldl remove_tree (files w) (removed (fs_faults w) ds)"
    by (simp add: removals_done_def)
  moreover from assms(3) removed_subset[of "fs_faults w" ds]
  have "\<forall>r \<in> set (removed (fs_faults w) ds). \<not> prefix d r \<and> \<not> prefix r d" by blast
  ultimately show ?thesis using assms(2) by (simp add: foldl_remove_tree_agree)
qed

lemma clean_measured_run:
  assumes agree: "agree_below fs0 (files w) d"
    and depth: "existsSync fs0 d \<Longrightarrow> \<exists>k. depth_below fs0 d k"
  shows "\<exists>r w'. clean_measured d tot w = Some (r, w')
           \<and> removals_done (filter (existsSync fs0) [d]) w r w'"
proof (cases "existsSync fs0 d")
  case False
  from agree have "files w d = fs0 d" by (rule agree_below_self)
  with False have "\<not> existsSync (files w) d" by (simp add: existsSync_def)
  with False show ?thesis by (simp add: clean_measured_def removals_done_none)
next
  case True
  from agree have "files w d = fs0 d" by (rule agree_below_self)
  with True have here: "existsSync (files w) d" by (simp add: existsSync_def)
  from depth[OF True] obtain k where "depth_below fs0 d k" ..
  then obtain n where "getDirectorySize fs0 d = Some (Inr n)"
    using getDirectorySize_returns by blast
  from this agree have sz: "getDirectorySize (files w) d = Some (Inr n)"
    by (rule getDirectorySize_frame_Some)
  show ?thesis
  proof (cases "fs_faults w (Remove d)")
    case None
    with here sz True show ?thesis
      by (simp add: clean_measured_def fs_remove_def Let_def removals_done_def removed_def)
  next
    case (Some msg)
    with here sz True show ?thesis
      by (simp add: clean_measured_def fs_remove_def Let_def removals_done_def removed_def)
  qed
qed

lemma build_targets_Cons:
  "build_targets fs pd (x # xs) =
     filter (existsSync fs) [scripts_of pd x] @ filter (existsSync fs) [dist_of pd x]
       @ build_targets fs pd xs"
  by (simp add: build_targets_def)

lemma project_step:
  "clean_measured (scripts_of pd x) tot w = Some (Inl e, w1) \<Longrightarrow>
   cleanPatternItem_projects pd (x # xs) tot w = Some (Inl e, w1)"
  "clean_measured (scripts_of pd x) tot w = Some (Inr t1, w1) \<Longrightarrow>
   clean_measured (dist_of pd x) t1 w1 = Some (Inl e, w2) \<Longrightarrow>
   cleanPatternItem_projects pd (x # xs) tot w = Some (Inl e, w2)"
  "clean_measured (scripts_of pd x) tot w = Some (Inr t1, w1) \<Longrightarrow>
   clean_measured (dist_of pd x) t1 w1 = Some (Inr t2, w2) \<Longrightarrow>
   cleanPatternItem_projects pd (x # xs) tot w = cleanPatternItem_projects pd xs t2 w2"
  by (simp_all add: scripts_of_def dist_of_def)

lemma build_dirs_apart:
  "\<not> prefix (scripts_of pd x) (dist_of pd y)" "\<not> prefix (dist_of pd y) (scripts_of pd x)"
  "x \<noteq> y \<Longrightarrow> \<not> prefix (scripts_of pd x) (scripts_of pd y)"
  "x \<noteq> y \<Longrightarrow> \<not> prefix (dist_of pd x) (dist_of pd y)"
  by (simp_all add: scripts_of_def dist_of_def)

lemma one_removal_agree:
  assumes "removals_done (filter ex [t]) w r w'" and "agree_below fs0 (files w) d"
    and "\<not> prefix d t" and "\<not> prefix t d"
  shows "agree_below fs0 (files w') d"
  using assms(1,2)
proof (rule removals_done_agree)
  from assms(3,4) show "\<forall>r \<in> set (filter ex [t]). \<not> prefix d r \<and> \<not> prefix r d" by simp
qed
lemma cleanPatternItem_projects_run:
  assumes "distinct xs"
    and "\<forall>x \<in> set xs. agree_below fs0 (files w) (scripts_of pd x)
                       \<and> agree_below fs0 (files w) (dist_of pd x)"
    and "\<forall>d \<in> set (build_targets fs0 pd xs). \<exists>k. depth_below fs0 d k"
  shows "\<exists>r w'. cleanPatternItem_projects pd xs tot w = Some (r, w')
           \<and> removals_done (build_targets fs0 pd xs) w r w'"
  using assms
proof (induction xs arbitrary: tot w)
  case Nil
  show ?case by (simp add: build_targets_def removals_done_none)
next
  case (Cons x xs)
  let ?sd = "scripts_of pd x" and ?dd = "dist_of pd x"
  let ?S = "filter (existsSync fs0) [?sd]" and ?D = "filter (existsSync fs0) [?dd]"
  let ?rest = "build_targets fs0 pd xs"
  note T = build_targets_Cons[where fs = fs0 and pd = pd and x = x and xs = xs]
  from Cons.prems(1) have fresh: "x \<notin> set xs" and dist: "distinct xs" by simp_all
  have other: "y \<noteq> x" if "y \<in> set xs" for y using that fresh by auto
  from Cons.prems(3) have depth_rest: "\<forall>d \<in> set ?rest. \<exists>k. depth_below fs0 d k"
    unfolding T by simp
  from Cons.prems(3) have depth_sd: "existsSync fs0 ?sd \<Longrightarrow> \<exists>k. depth_below fs0 ?sd k"
    unfolding T by simp
  from Cons.prems(3) have depth_dd: "existsSync fs0 ?dd \<Longrightarrow> \<exists>k. depth_below fs0 ?dd k"
    unfolding T by simp
  from Cons.prems(2) have a_sd: "agree_below fs0 (files w) ?sd"
    and a_dd: "agree_below fs0 (files w) ?dd"
    and a_rest: "\<And>y. y \<in> set xs \<Longrightarrow> agree_below fs0 (files w) (scripts_of pd y)"
                "\<And>y. y \<in> set xs \<Longrightarrow> agree_below fs0 (files w) (dist_of pd y)"
    by simp_all
  from clean_measured_run[where ?fs0.0 = fs0 and w = w and d = ?sd and tot = tot, OF a_sd depth_sd]
  obtain r1 w1 where
    m1: "clean_measured ?sd tot w = Some (r1, w1)" and d1: "removals_done ?S w r1 w1"
    by blast
  from d1 a_dd have agree1: "agree_below fs0 (files w1) ?dd"
    by (rule one_removal_agree) (rule build_dirs_apart)+
  have agree1_s: "agree_below fs0 (files w1) (scripts_of pd y)" if "y \<in> set xs" for y
    using d1 a_rest(1)[OF that]
    by (rule one_removal_agree) (rule build_dirs_apart, rule other[OF that] other[OF that, symmetric])+
  have agree1_d: "agree_below fs0 (files w1) (dist_of pd y)" if "y \<in> set xs" for y
    using d1 a_rest(2)[OF that]
    by (rule one_removal_agree) (rule build_dirs_apart)+
  show ?case
  proof (cases r1)
    case (Inl e)
    with m1 have "cleanPatternItem_projects pd (x # xs) tot w = Some (Inl e, w1)"
      by (simp only: project_step(1))
    moreover from d1 have "removals_done (?S @ ?D @ ?rest) w (Inl e) w1"
      unfolding Inl by (rule removals_done_failed)
    ultimately show ?thesis unfolding T by (intro exI conjI)
  next
    case t1: (Inr tot1)
    from clean_measured_run[where ?fs0.0 = fs0 and w = w1 and d = ?dd and tot = tot1,
           OF agree1 depth_dd]
    obtain r2 w2 where
      m2: "clean_measured ?dd tot1 w1 = Some (r2, w2)" and d2: "removals_done ?D w1 r2 w2"
      by blast
    show ?thesis
    proof (cases r2)
      case (Inl e)
      from m1 m2 have "cleanPatternItem_projects pd (x # xs) tot w = Some (Inl e, w2)"
        unfolding t1 Inl by (rule project_step(2))
      moreover from d2 have "removals_done (?D @ ?rest) w1 (Inl e) w2"
        unfolding Inl by (rule removals_done_failed)
      with d1[unfolded t1] have "removals_done (?S @ ?D @ ?rest) w (Inl e) w2"
        by (rule removals_done_then)
      ultimately show ?thesis unfolding T by (intro exI conjI)
    next
      case t2: (Inr tot2)
      have agree2: "\<forall>y \<in> set xs. agree_below fs0 (files w2) (scripts_of pd y)
                       \<and> agree_below fs0 (files w2) (dist_of pd y)"
      proof (intro ballI conjI)
        fix y assume y: "y \<in> set xs"
        from d2 agree1_s[OF y] show "agree_below fs0 (files w2) (scripts_of pd y)"
          by (rule one_removal_agree) (rule build_dirs_apart)+
        from d2 agree1_d[OF y] show "agree_below fs0 (files w2) (dist_of pd y)"
          by (rule one_removal_agree)
             (rule build_dirs_apart, rule other[OF y] other[OF y, symmetric])+
      qed
      from Cons.IH[OF dist agree2 depth_rest, where tot = tot2] obtain r w' where
        run: "cleanPatternItem_projects pd xs tot2 w2 = Some (r, w')"
        and d3: "removals_done ?rest w2 r w'" by blast
      from m1 m2 have "cleanPatternItem_projects pd (x # xs) tot w
                         = cleanPatternItem_projects pd xs tot2 w2"
        unfolding t1 t2 by (rule project_step(3))
      with run have "cleanPatternItem_projects pd (x # xs) tot w = Some (r, w')" by simp
      moreover from d2[unfolded t2] d3 have "removals_done (?D @ ?rest) w1 r w'"
        by (rule removals_done_then)
      with d1[unfolded t1] have "removals_done (?S @ ?D @ ?rest) w r w'"
        by (rule removals_done_then)
      ultimately show ?thesis unfolding T by (intro exI conjI)
    qed
  qed
qed
lemma filter_isDirectory_distinct:
  "filter_isDirectory fs dir names = Inr ps \<Longrightarrow> distinct names \<Longrightarrow>
   distinct ps \<and> set ps \<subseteq> set names"
proof (induction names arbitrary: ps)
  case Nil
  then show ?case by simp
next
  case (Cons x xs)
  from Cons.prems(1) obtain st rest where
    "statSync fs (dir @ [x]) = Inr st" and rest: "filter_isDirectory fs dir xs = Inr rest"
    and ps: "ps = (if isDirectory st then x # rest else rest)"
    by (auto split: sum.splits)
  from Cons.IH[OF rest] Cons.prems(2) have "distinct rest" "set rest \<subseteq> set xs" by simp_all
  with ps Cons.prems(2) show ?case by auto
qed

lemma cleanPatternItem_run:
  assumes "name item = ''Build outputs''"
    and "readdirSync (files w) (ws @ [''projects'']) = Inr names" and "distinct names"
    and "filter_isDirectory (files w) (ws @ [''projects'']) names = Inr projects"
    and "\<forall>d \<in> set (build_targets (files w) (ws @ [''projects'']) projects).
           \<exists>k. depth_below (files w) d k"
  shows "\<exists>r w'. cleanPatternItem item ws w = Some (r, w')
           \<and> removals_done (build_targets (files w) (ws @ [''projects'']) projects) w r w'"
proof -
  from assms(2) have here: "existsSync (files w) (ws @ [''projects''])"
    by (auto simp: readdirSync_def existsSync_def split: option.splits)
  from filter_isDirectory_distinct[OF assms(4,3)] have "distinct projects" by simp
  from cleanPatternItem_projects_run[OF this _ assms(5), where tot = 0 and w = w]
  obtain r w' where
    "cleanPatternItem_projects (ws @ [''projects'']) projects 0 w = Some (r, w')"
    and "removals_done (build_targets (files w) (ws @ [''projects'']) projects) w r w'"
    by (auto simp: agree_below_refl)
  with assms(1,2,4) here show ?thesis by (simp add: cleanPatternItem_def Let_def)
qed

lemma late_stuck_targets:
  "build_targets (files late_stuck_world) ([''home'', ''workspace''] @ [''projects''])
     [''alpha'', ''beta'']
   = [[''home'', ''workspace'', ''projects'', ''alpha'', ''behavior_pack'', ''scripts''],
      [''home'', ''workspace'', ''projects'', ''beta'', ''behavior_pack'', ''scripts'']]"
  by (simp add: build_targets_def scripts_of_def dist_of_def existsSync_def late_stuck_world_def
        stuck_world_def two_projects_fs_def)

lemma two_projects_fs_depth:
  "depth_below two_projects_fs
     [''home'', ''workspace'', ''projects'', ''alpha'', ''behavior_pack'', ''scripts''] 2"
  "depth_below two_projects_fs
     [''home'', ''workspace'', ''projects'', ''beta'', ''behavior_pack'', ''scripts''] 2"
  unfolding depth_below_def two_projects_fs_def
  by (auto split: if_splits)

text \<open>
  Claim C2, as stated: when removing one project's subpath fails, removal is still
  attempted for every remaining project of the category. The loop over the projects has
  no handler of its own: with two projects and a removal that fails for the first, the
  only removals attempted are that one and the lock file of the next category, and the
  scripts of the second project are still there.
\<close>

theorem C2_failed_removal_skips_remaining_projects:
  "map_option (\<lambda>(r, w'). (fs_log w',
       existsSync (files w') [''home'', ''workspace'', ''projects'', ''beta'', ''behavior_pack'', ''scripts'']))
     (cleanWorkspace [''home''] select_build_and_lock stuck_world)
   = Some ([Remove [''home'', ''workspace'', ''projects'', ''alpha'', ''behavior_pack'', ''scripts''],
            Remove [''home'', ''workspace'', ''package-lock.json'']], True)"
  by code_simp

text \<open>
  Claim C2, amended: removing "Build outputs" goes through the projects in listing order
  and, for each of them, through its scripts directory and then its dist directory,
  removing those that exist one after the other. The first removal that fails ends the
  category: no removal is attempted after it, what was removed before it stays removed,
  and the category is rejected; it returns a byte count exactly when every removal
  succeeded. The failure is caught per category: the clean goes on with the next selected
  category. The listing of the projects has no name twice, and the directories to remove
  are trees of finite depth.
\<close>

theorem C2_removal_stops_at_first_failure:
  assumes "name item = ''Build outputs''"
    and "readdirSync (files w) (ws @ [''projects'']) = Inr names" and "distinct names"
    and "filter_isDirectory (files w) (ws @ [''projects'']) names = Inr projects"
    and "targets = build_targets (files w) (ws @ [''projects'']) projects"
    and "\<forall>d \<in> set targets. \<exists>k. depth_below (files w) d k"
  shows "\<exists>r w'. cleanPatternItem item ws w = Some (r, w')
           \<and> w' = w\<lparr>fs_log := fs_log w @ map Remove (attempted (fs_faults w) targets),
                     files := foldl remove_tree (files w) (removed (fs_faults w) targets)\<rparr>
           \<and> ((\<exists>n. r = Inr n) \<longleftrightarrow> (\<forall>d \<in> set targets. fs_faults w (Remove d) = None))
           \<and> (\<forall>n existing rest tot cnt e.
                 r = Inl e \<and> find (\<lambda>i. name i = n) existing = Some item \<and> isPattern item \<longrightarrow>
                 cleanWorkspace_items ws existing (n # rest) tot cnt w
                   = cleanWorkspace_items ws existing rest tot cnt w')"
proof -
  from assms(6) have "\<forall>d \<in> set (build_targets (files w) (ws @ [''projects'']) projects).
           \<exists>k. depth_below (files w) d k"
    unfolding assms(5) .
  from cleanPatternItem_run[OF assms(1,2,3,4) this] obtain r w' where
    run: "cleanPatternItem item ws w = Some (r, w')"
    and went: "removals_done targets w r w'"
    unfolding assms(5) by blast
  have "cleanWorkspace_items ws existing (n # rest) tot cnt w
          = cleanWorkspace_items ws existing rest tot cnt w'"
    if "r = Inl e" "find (\<lambda>i. name i = n) existing = Some item" "isPattern item"
    for n existing rest tot cnt e
    using that run by simp
  with run went show ?thesis
    unfolding removals_done_def by blast
qed

theorem C2_removal_stops_at_first_failure_witness:
  "\<exists>r w'. cleanPatternItem build_outputs_item [''home'', ''workspace''] late_stuck_world
             = Some (r, w')
     \<and> fs_log w'
         = [Remove [''home'', ''workspace'', ''projects'', ''alpha'', ''behavior_pack'', ''scripts''],
            Remove [''home'', ''workspace'', ''projects'', ''beta'', ''behavior_pack'', ''scripts'']]
     \<and> files w'
         = remove_tree two_projects_fs
             [''home'', ''workspace'', ''projects'', ''alpha'', ''behavior_pack'', ''scripts'']
     \<and> (\<exists>e. r = Inl e)
     \<and> cleanWorkspace_items [''home'', ''workspace''] [build_outputs_item]
           [''Build outputs'', ''Package lock file''] 0 0 late_stuck_world
         = cleanWorkspace_items [''home'', ''workspace''] [build_outputs_item]
             [''Package lock file''] 0 0 w'"
proof -
  let ?a = "[''home'', ''workspace'', ''projects'', ''alpha'', ''behavior_pack'', ''scripts'']"
  let ?b = "[''home'', ''workspace'', ''projects'', ''beta'', ''behavior_pack'', ''scripts'']"
  have item: "name build_outputs_item = ''Build outputs''" "isPattern build_outputs_item"
    "find (\<lambda>i. name i = ''Build outputs'') [build_outputs_item] = Some build_outputs_item"
    by (simp_all add: build_outputs_item_def)
  have fs: "files late_stuck_world = two_projects_fs" "fs_log late_stuck_world = []"
    by (simp_all add: late_stuck_world_def stuck_world_def)
  have faults: "fs_faults late_stuck_world (Remove ?a) = None"
    "fs_faults late_stuck_world (Remove ?b) = Some ''EBUSY''"
    by (simp_all add: late_stuck_world_def stuck_world_def)
  have rd: "readdirSync (files late_stuck_world) ([''home'', ''workspace''] @ [''projects''])
              = Inr [''alpha'', ''beta'']"
    by (simp add: fs readdirSync_def two_projects_fs_def)
  have dirs: "filter_isDirectory (files late_stuck_world) ([''home'', ''workspace''] @ [''projects''])
                [''alpha'', ''beta''] = Inr [''alpha'', ''beta'']"
    by (simp add: fs statSync_def two_projects_fs_def)
  have depth: "\<forall>d \<in> set [?a, ?b]. \<exists>k. depth_below (files late_stuck_world) d k"
    using two_projects_fs_depth by (auto simp: fs)
  from C2_removal_stops_at_first_failure
         [OF item(1) rd _ dirs late_stuck_targets[symmetric] depth]
  obtain r w' where
    run: "cleanPatternItem build_outputs_item [''home'', ''workspace''] late_stuck_world = Some (r, w')"
    and w': "w' = late_stuck_world\<lparr>fs_log := fs_log late_stuck_world
                       @ map Remove (attempted (fs_faults late_stuck_world) [?a, ?b]),
                files := foldl remove_tree (files late_stuck_world)
                           (removed (fs_faults late_stuck_world) [?a, ?b])\<rparr>"
    and r: "(\<exists>n. r = Inr n) \<longleftrightarrow> (\<forall>d \<in> set [?a, ?b]. fs_faults late_stuck_world (Remove d) = None)"
    and go_on: "\<forall>n existing rest tot cnt e.
                 r = Inl e \<and> find (\<lambda>i. name i = n) existing = Some build_outputs_item
                   \<and> isPattern build_outputs_item \<longrightarrow>
                 cleanWorkspace_items [''home'', ''workspace''] existing (n # rest) tot cnt late_stuck_world
                   = cleanWorkspace_items [''home'', ''workspace''] existing rest tot cnt w'"
    by auto
  from r faults obtain e where e: "r = Inl e" by (cases r) auto
  from w' faults fs have log: "fs_log w' = [Remove ?a, Remove ?b]"
    and files: "files w' = remove_tree two_projects_fs ?a"
    by (simp_all add: removed_def)
  from go_on e item have "cleanWorkspace_items [''home'', ''workspace''] [build_outputs_item]
           (''Build outputs'' # [''Package lock file'']) 0 0 late_stuck_world
         = cleanWorkspace_items [''home'', ''workspace''] [build_outputs_item]
             [''Package lock file''] 0 0 w'"
    by blast
  with run log files e show ?thesis by (intro exI[of _ r] exI[of _ w']) simp
qed

text \<open>
  Claim C10: the size computed for "Temporary files" is 0 for every workspace, so the
  category is never among the items presented; its branch of \<^verbatim>\<open>cleanPatternItem\<close> returns
  0 and leaves the world as it is; and a selection that names it all the same skips it.
\<close>

theorem C10_temporary_files_inert:
  "getTempFilesSize workspaceDir = Inr 0
   \<and> (cleanableItems fs workspaceDir = Some (Inr items) \<longrightarrow>
        find (\<lambda>i. name i = ''Temporary files'') (existingItems fs items) = None)
   \<and> (name item = ''Temporary files'' \<longrightarrow> cleanPatternItem item workspaceDir w = Some (Inr 0, w))
   \<and> (cleanableItems fs workspaceDir = Some (Inr items) \<longrightarrow>
        cleanWorkspace_items workspaceDir (existingItems fs items) (''Temporary files'' # rest) tot cnt w
        = cleanWorkspace_items workspaceDir (existingItems fs items) rest tot cnt w)"
proof -
  have inert: "find (\<lambda>i. name i = ''Temporary files'') (existingItems fs items) = None"
    if "cleanableItems fs workspaceDir = Some (Inr items)"
  proof -
    from cleanableItems_shape[OF that] show ?thesis
      by (auto simp: existingItems_def)
  qed
  then show ?thesis
    by (simp add: getTempFilesSize_def cleanPatternItem_def)
qed

theorem C10_temporary_files_inert_witness:
  "\<exists>items. cleanableItems two_projects_fs [''home'', ''workspace''] = Some (Inr items)
     \<and> find (\<lambda>i. name i = ''Temporary files'') (existingItems two_projects_fs items) = None
     \<and> name temporary_files_item = ''Temporary files''
     \<and> cleanPatternItem temporary_files_item [''home'', ''workspace''] calm_world
         = Some (Inr 0, calm_world)
     \<and> cleanWorkspace_items [''home'', ''workspace''] (existingItems two_projects_fs items)
           [''Temporary files''] 0 0 calm_world
         = Some ((0, 0), calm_world)"
proof -
  from stuck_build_outputs obtain items where
    cat: "cleanableItems two_projects_fs [''home'', ''workspace''] = Some (Inr items)"
    by (simp add: stuck_world_def)
  have nm: "name temporary_files_item = ''Temporary files''"
    by (simp add: temporary_files_item_def)
  note t = C10_temporary_files_inert
             [where fs = two_projects_fs and workspaceDir = "[''home'', ''workspace'']"
                and items = items and item = temporary_files_item and w = calm_world
                and rest = "[]" and tot = 0 and cnt = 0]
  from t cat have a: "find (\<lambda>i. name i = ''Temporary files'') (existingItems two_projects_fs items) = None"
    by (simp only: simp_thms)
  from t nm have b: "cleanPatternItem temporary_files_item [''home'', ''workspace''] calm_world
         = Some (Inr 0, calm_world)"
    by (simp only: simp_thms)
  from t cat have "cleanWorkspace_items [''home'', ''workspace''] (existingItems two_projects_fs items)
           [''Temporary files''] 0 0 calm_world
         = cleanWorkspace_items [''home'', ''workspace''] (existingItems two_projects_fs items)
           [] 0 0 calm_world"
    by (simp only: simp_thms)
  then have c: "cleanWorkspace_items [''home'', ''workspace''] (existingItems two_projects_fs items)
           [''Temporary files''] 0 0 calm_world = Some ((0, 0), calm_world)"
    by simp
  from cat a nm b c show ?thesis
    by (intro exI[of _ items] conjI)
qed

section \<open>Properties of updateWorkspace\<close>

lemma git_ok:
  "git_faults w c = None \<Longrightarrow>
   git c w = (Inr (), w\<lparr>git_log := git_log w @ [c], repo := git_effect c (repo w),
                        files := (if rewrites_worktree c then worktree_after w c (files w)
                                  else files w)\<rparr>)"
  by (simp add: git_def Let_def)

lemma backup_path_snoc:
  "backup_path (front @ [l]) now = front @ [l @ ''_backup_'' @ show_nat now]"
  by (simp add: backup_path_def)

lemma copy_tree_backup:
  "copy_tree fs src dest (dest @ q) = fs (src @ q)"
  by (simp add: copy_tree_def)

lemma copy_tree_original:
  assumes "sfx \<noteq> []"
  shows "copy_tree fs (front @ [l]) (front @ [l @ sfx]) ((front @ [l]) @ q) = fs ((front @ [l]) @ q)"
proof -
  have "\<not> prefix (front @ [l @ sfx]) ((front @ [l]) @ q)" using assms by simp
  moreover have "(front @ [l]) @ q \<noteq> butlast (front @ [l @ sfx])" by (simp add: butlast_append)
  ultimately show ?thesis by (simp add: copy_tree_def)
qed

lemma fs_copy_ok:
  "fs_faults w (Copy src dest) = None \<Longrightarrow> existsSync (files w) src \<Longrightarrow>
   fs_copy src dest w
     = (Inr (), w\<lparr>fs_log := fs_log w @ [Copy src dest], files := copy_tree (files w) src dest\<rparr>)"
  by (simp add: fs_copy_def Let_def)

lemma fs_copy_rejected:
  "fs_faults w (Copy src dest) = Some msg \<Longrightarrow>
   fs_copy src dest w = (Inl (Error msg), w\<lparr>fs_log := fs_log w @ [Copy src dest]\<rparr>)"
  by (simp add: fs_copy_def Let_def)

lemma updateWorkspace_untracked:
  assumes "existsSync (files w) (cwd @ [''workspace''])"
    and "\<not> existsSync (files w) (cwd @ [''workspace'', ''.git''])"
    and "reinitialize answers"
  shows "updateWorkspace init cwd answers w =
           (case reinitializeWorkspace init (cwd @ [''workspace'']) w of
              (Inl e, w') \<Rightarrow> (Inl e, w')
            | (Inr u, w') \<Rightarrow> (Inr Reinitialized, w'))"
  using assms by (simp add: updateWorkspace_def Let_def)

lemma reinitializeWorkspace_copy_rejected:
  "fs_copy ws (backup_path ws (clock w)) w = (Inl e, w1) \<Longrightarrow>
   reinitializeWorkspace init ws w = (Inl e, w1)"
  by (simp add: reinitializeWorkspace_def Let_def)

lemma reinitializeWorkspace_copied:
  "fs_copy ws (backup_path ws (clock w)) w = (Inr u, w1) \<Longrightarrow>
   reinitializeWorkspace init ws w =
     (case fs_remove ws w1 of
        (Inl e, w2) \<Rightarrow> (Inl e, w2)
      | (Inr u, w2) \<Rightarrow>
          (case init w2 of
             (Inl e, w3) \<Rightarrow> (Inl e, w3)
           | (Inr u, w3) \<Rightarrow> (Inr (), w3)))"
  by (simp add: reinitializeWorkspace_def Let_def)

lemma lift_reinit:
  "(case (case X of
            (Inl e, w2) \<Rightarrow> (Inl e, w2)
          | (Inr u, w2) \<Rightarrow>
              (case init w2 of
                 (Inl e, w3) \<Rightarrow> (Inl e, w3)
               | (Inr u, w3) \<Rightarrow> (Inr (), w3))) of
      (Inl e, w') \<Rightarrow> (Inl e, w')
    | (Inr u, w') \<Rightarrow> (Inr Reinitialized, w'))
   = (case X of
        (Inl e, w2) \<Rightarrow> (Inl e, w2)
      | (Inr u, w2) \<Rightarrow>
          (case init w2 of
             (Inl e, w3) \<Rightarrow> (Inl e, w3)
           | (Inr u, w3) \<Rightarrow> (Inr Reinitialized, w3)))"
  by (auto split: prod.splits sum.splits)

lemma reinit_rejected:
  assumes ws: "existsSync (files w) (cwd @ [''workspace''])"
    and nogit: "\<not> existsSync (files w) (cwd @ [''workspace'', ''.git''])"
    and yes: "reinitialize answers"
    and flt: "fs_faults w (Copy (cwd @ [''workspace'']) (backup_path (cwd @ [''workspace'']) (clock w))) = Some msg"
  shows "updateWorkspace init cwd answers w
           = (Inl (Error msg),
              w\<lparr>fs_log := fs_log w @ [Copy (cwd @ [''workspace''])
                                          (backup_path (cwd @ [''workspace'']) (clock w))]\<rparr>)"
proof -
  from flt have "fs_copy (cwd @ [''workspace'']) (backup_path (cwd @ [''workspace'']) (clock w)) w
      = (Inl (Error msg), w\<lparr>fs_log := fs_log w @ [Copy (cwd @ [''workspace''])
                                          (backup_path (cwd @ [''workspace'']) (clock w))]\<rparr>)"
    by (rule fs_copy_rejected)
  then have "reinitializeWorkspace init (cwd @ [''workspace'']) w
      = (Inl (Error msg), w\<lparr>fs_log := fs_log w @ [Copy (cwd @ [''workspace''])
                                          (backup_path (cwd @ [''workspace'']) (clock w))]\<rparr>)"
    by (rule reinitializeWorkspace_copy_rejected)
  then show ?thesis
    by (simp only: updateWorkspace_untracked[OF ws nogit yes] prod.case sum.case)
qed

lemma reinit_copied:
  assumes ws: "existsSync (files w) (cwd @ [''workspace''])"
    and nogit: "\<not> existsSync (files w) (cwd @ [''workspace'', ''.git''])"
    and yes: "reinitialize answers"
    and flt: "fs_faults w (Copy (cwd @ [''workspace'']) (backup_path (cwd @ [''workspace'']) (clock w))) = None"
  shows "updateWorkspace init cwd answers w
           = (case fs_remove (cwd @ [''workspace''])
                     (w\<lparr>fs_log := fs_log w @ [Copy (cwd @ [''workspace''])
                                          (backup_path (cwd @ [''workspace'']) (clock w))],
                        files := copy_tree (files w) (cwd @ [''workspace''])
                                   (backup_path (cwd @ [''workspace'']) (clock w))\<rparr>) of
                (Inl e, w2) \<Rightarrow> (Inl e, w2)
              | (Inr u, w2) \<Rightarrow>
                  (case init w2 of
                     (Inl e, w3) \<Rightarrow> (Inl e, w3)
                   | (Inr u, w3) \<Rightarrow> (Inr Reinitialized, w3)))"
proof -
  from flt ws
  have "fs_copy (cwd @ [''workspace'']) (backup_path (cwd @ [''workspace'']) (clock w)) w
      = (Inr (), w\<lparr>fs_log := fs_log w @ [Copy (cwd @ [''workspace''])
                                          (backup_path (cwd @ [''workspace'']) (clock w))],
                        files := copy_tree (files w) (cwd @ [''workspace''])
                                   (backup_path (cwd @ [''workspace'']) (clock w))\<rparr>)"
    by (rule fs_copy_ok)
  then have "reinitializeWorkspace init (cwd @ [''workspace'']) w
      = (case fs_remove (cwd @ [''workspace''])
                     (w\<lparr>fs_log := fs_log w @ [Copy (cwd @ [''workspace''])
                                          (backup_path (cwd @ [''workspace'']) (clock w))],
                        files := copy_tree (files w) (cwd @ [''workspace''])
                                   (backup_path (cwd @ [''workspace'']) (clock w))\<rparr>) of
                (Inl e, w2) \<Rightarrow> (Inl e, w2)
              | (Inr u, w2) \<Rightarrow>
                  (case init w2 of
                     (Inl e, w3) \<Rightarrow> (Inl e, w3)
                   | (Inr u, w3) \<Rightarrow> (Inr (), w3)))"
    by (rule reinitializeWorkspace_copied)
  then show ?thesis
    by (simp only: updateWorkspace_untracked[OF ws nogit yes] lift_reinit)
qed

lemma backup_is_sibling:
  "backup_path (cwd @ [''workspace'']) now = cwd @ [''workspace_backup_'' @ show_nat now]"
  by (simp add: backup_path_snoc)

lemma copy_keeps_original:
  "copy_tree fs (cwd @ [''workspace'']) (backup_path (cwd @ [''workspace'']) now)
     ((cwd @ [''workspace'']) @ q) = fs ((cwd @ [''workspace'']) @ q)"
  using copy_tree_original[of "''_backup_'' @ show_nat now" fs cwd "''workspace''" q]
  by (simp add: backup_path_snoc)

lemma show_nat_now: "show_nat 1700000000000 = ''1700000000000''"
  by (simp add: show_nat.simps)

lemma dirty_world_tracked:
  "existsSync (files dirty_world) ([''home''] @ [''workspace''])"
  "existsSync (files dirty_world) ([''home''] @ [''workspace'', ''.git''])"
  "existsSync (files behind_world) ([''home''] @ [''workspace''])"
  "existsSync (files behind_world) ([''home''] @ [''workspace'', ''.git''])"
  by (simp_all add: dirty_world_def behind_world_def tracked_fs_def existsSync_def)

lemma behind_world_no_faults:
  "\<forall>c. c \<noteq> Pull_origin_main \<longrightarrow> git_faults behind_world c = None"
  by (simp add: dirty_world_def behind_world_def)

lemma dirty_world_no_faults:
  "\<forall>c. c \<noteq> Pull_origin_main \<longrightarrow> git_faults dirty_world c = None"
  by (simp add: dirty_world_def)

lemma untracked_facts:
  "existsSync (files untracked_world) ([''home''] @ [''workspace''])"
  "\<not> existsSync (files untracked_world) ([''home''] @ [''workspace'', ''.git''])"
  "existsSync (files copy_fails_world) ([''home''] @ [''workspace''])"
  "\<not> existsSync (files copy_fails_world) ([''home''] @ [''workspace'', ''.git''])"
  "reinitialize stash_answers"
  by (simp_all add: untracked_world_def copy_fails_world_def dirty_world_def untracked_fs_def
        existsSync_def stash_answers_def)

lemma untracked_backup:
  "backup_path [''home'', ''workspace''] 1700000000000
     = [''home'', ''workspace_backup_1700000000000'']"
  by (simp add: backup_path_def show_nat_now)

lemma untracked_clock: "clock untracked_world = 1700000000000" "clock copy_fails_world = 1700000000000"
  by (simp_all add: untracked_world_def copy_fails_world_def dirty_world_def)

text \<open>
  Claim C1, as stated: when the local HEAD equals the remote ref, the update reports
  up-to-date without any stash, reset, clean or pull, whether or not the working tree was
  dirty. The dirty state is resolved before the fetch and the comparison: on a dirty tree
  with the answer \<^verbatim>\<open>stash\<close> the run stashes the changes and then reports up-to-date.
\<close>

theorem C1_stash_runs_before_up_to_date:
  "fst (updateWorkspace no_init [''home''] stash_answers dirty_world) = Inr AlreadyUpToDate
   \<and> git_log (snd (updateWorkspace no_init [''home''] stash_answers dirty_world))
       = [Status, Stash, Fetch_origin_main, Revparse_HEAD, Revparse_origin_main]
   \<and> stash_list (repo (snd (updateWorkspace no_init [''home''] stash_answers dirty_world)))
       = [[''just.config.ts'']]"
  by (simp add: updateWorkspace_def update_from_fetch_def git_def git_effect_def Let_def
        rewrites_worktree_def isClean_def existsSync_def dirty_world_def dirty_repo_def
        tracked_fs_def stash_answers_def)

text \<open>
  Claim C1, amended: on a tracked workspace whose HEAD equals the remote ref, when no git
  call fails and the operator does not cancel at the dirty-state prompt, the update reports
  up-to-date and never pulls. Its git calls are \<^verbatim>\<open>status\<close>, then the resolution chosen
  for a dirty tree (\<^verbatim>\<open>stash\<close>, or \<^verbatim>\<open>reset\<close> and \<^verbatim>\<open>clean\<close>), then \<^verbatim>\<open>fetch\<close> and the two
  \<^verbatim>\<open>rev-parse\<close>; on a clean tree there is no stash, reset or clean.
\<close>

theorem C1_up_to_date_calls:
  assumes "existsSync (files w) (cwd @ [''workspace''])"
    and "existsSync (files w) (cwd @ [''workspace'', ''.git''])"
    and "\<forall>c. c \<noteq> Pull_origin_main \<longrightarrow> git_faults w c = None"
    and "HEAD (repo w) = remote_main (repo w)"
    and "isClean (repo w) \<or> continueUpdate answers \<noteq> ''cancel''"
    and "updateWorkspace init cwd answers w = (r, w')"
  shows "r = Inr AlreadyUpToDate
         \<and> calls_made w w' = [Status] @ resolution_calls (repo w) answers
              @ [Fetch_origin_main, Revparse_HEAD, Revparse_origin_main]
         \<and> Pull_origin_main \<notin> set (calls_made w w')
         \<and> (isClean (repo w) \<longrightarrow>
              calls_made w w' = [Status, Fetch_origin_main, Revparse_HEAD, Revparse_origin_main])"
proof -
  from assms(3) have nf: "git_faults w Status = None" "git_faults w Stash = None"
    "git_faults w Reset_hard = None" "git_faults w Clean_f_d = None"
    "git_faults w Fetch_origin_main = None" "git_faults w Revparse_HEAD = None"
    "git_faults w Revparse_origin_main = None"
    by simp_all
  have same: "update_from_fetch ws answers v =
           (Inr AlreadyUpToDate,
            v\<lparr>git_log := git_log v @ [Fetch_origin_main, Revparse_HEAD, Revparse_origin_main],
              repo := (repo v)\<lparr>origin_main := remote_main (repo v)\<rparr>\<rparr>)"
    if "git_faults v = git_faults w" "HEAD (repo v) = remote_main (repo v)" for v ws
    using that nf
    by (simp add: update_from_fetch_def Let_def git_ok git_effect_def rewrites_worktree_def)
  from assms(1,2,4,5,6) nf show ?thesis
    by (auto simp: updateWorkspace_def Let_def git_ok git_effect_def rewrites_worktree_def
          same resolution_calls_def calls_made_def isClean_def)
qed

theorem C1_up_to_date_calls_witness:
  "existsSync (files dirty_world) ([''home''] @ [''workspace''])
   \<and> existsSync (files dirty_world) ([''home''] @ [''workspace'', ''.git''])
   \<and> HEAD (repo dirty_world) = remote_main (repo dirty_world)
   \<and> continueUpdate stash_answers \<noteq> ''cancel''
   \<and> fst (updateWorkspace no_init [''home''] stash_answers dirty_world) = Inr AlreadyUpToDate
   \<and> calls_made dirty_world (snd (updateWorkspace no_init [''home''] stash_answers dirty_world))
       = [Status, Stash, Fetch_origin_main, Revparse_HEAD, Revparse_origin_main]
   \<and> Pull_origin_main \<notin> set (calls_made dirty_world
         (snd (updateWorkspace no_init [''home''] stash_answers dirty_world)))"
proof -
  have eq: "HEAD (repo dirty_world) = remote_main (repo dirty_world)"
    by (simp add: dirty_world_def dirty_repo_def)
  have nc: "isClean (repo dirty_world) \<or> continueUpdate stash_answers \<noteq> ''cancel''"
    by (simp add: stash_answers_def)
  have res: "resolution_calls (repo dirty_world) stash_answers = [Stash]"
    by (simp add: resolution_calls_def isClean_def dirty_world_def dirty_repo_def stash_answers_def)
  from C1_up_to_date_calls[OF dirty_world_tracked(1,2) dirty_world_no_faults eq nc prod.collapse[symmetric]]
  show ?thesis using dirty_world_tracked(1,2) eq res by (simp add: stash_answers_def)
qed

text \<open>
  Claim C4: reinitialising a workspace that is not tracked copies the root to the sibling
  \<^verbatim>\<open>workspace_backup_<clock>\<close> first. When the copy is rejected the update ends with that
  error and the world is as before but for the logged copy attempt: nothing is removed.
  When the copy succeeds the backup holds every path of the root, the root is still
  complete, and only then the root is removed and the initialisation runs.
\<close>

theorem C4_backup_before_delete:
  assumes ws: "existsSync (files w) (cwd @ [''workspace''])"
    and nogit: "\<not> existsSync (files w) (cwd @ [''workspace'', ''.git''])"
    and yes: "reinitialize answers"
  shows "let workspaceDir = cwd @ [''workspace''];
             backupDir = backup_path workspaceDir (clock w);
             w1 = w\<lparr>fs_log := fs_log w @ [Copy workspaceDir backupDir],
                     files := copy_tree (files w) workspaceDir backupDir\<rparr>
         in backupDir = cwd @ [''workspace_backup_'' @ show_nat (clock w)]
            \<and> (fs_faults w (Copy workspaceDir backupDir) \<noteq> None \<longrightarrow>
                 (\<exists>e. updateWorkspace init cwd answers w
                        = (Inl e, w\<lparr>fs_log := fs_log w @ [Copy workspaceDir backupDir]\<rparr>)))
            \<and> (fs_faults w (Copy workspaceDir backupDir) = None \<longrightarrow>
                 (\<forall>q. files w1 (backupDir @ q) = files w (workspaceDir @ q))
                 \<and> (\<forall>q. files w1 (workspaceDir @ q) = files w (workspaceDir @ q))
                 \<and> updateWorkspace init cwd answers w
                     = (case fs_remove workspaceDir w1 of
                          (Inl e, w2) \<Rightarrow> (Inl e, w2)
                        | (Inr u, w2) \<Rightarrow>
                            (case init w2 of
                               (Inl e, w3) \<Rightarrow> (Inl e, w3)
                             | (Inr u, w3) \<Rightarrow> (Inr Reinitialized, w3))))"
  unfolding Let_def
proof (intro conjI impI allI)
  show "backup_path (cwd @ [''workspace'']) (clock w)
          = cwd @ [''workspace_backup_'' @ show_nat (clock w)]"
    by (rule backup_is_sibling)
next
  assume "fs_faults w (Copy (cwd @ [''workspace''])
            (backup_path (cwd @ [''workspace'']) (clock w))) \<noteq> None"
  then obtain msg where "fs_faults w (Copy (cwd @ [''workspace''])
            (backup_path (cwd @ [''workspace'']) (clock w))) = Some msg" by blast
  from reinit_rejected[OF ws nogit yes this]
  show "\<exists>e. updateWorkspace init cwd answers w
          = (Inl e, w\<lparr>fs_log := fs_log w @ [Copy (cwd @ [''workspace''])
                         (backup_path (cwd @ [''workspace'']) (clock w))]\<rparr>)"
    by (intro exI[of _ "Error msg"])
next
  fix q
  show "files (w\<lparr>fs_log := fs_log w @ [Copy (cwd @ [''workspace''])
                         (backup_path (cwd @ [''workspace'']) (clock w))],
                 files := copy_tree (files w) (cwd @ [''workspace''])
                         (backup_path (cwd @ [''workspace'']) (clock w))\<rparr>)
          (backup_path (cwd @ [''workspace'']) (clock w) @ q)
        = files w ((cwd @ [''workspace'']) @ q)"
    by (simp add: copy_tree_backup)
next
  fix q
  show "files (w\<lparr>fs_log := fs_log w @ [Copy (cwd @ [''workspace''])
                         (backup_path (cwd @ [''workspace'']) (clock w))],
                 files := copy_tree (files w) (cwd @ [''workspace''])
                         (backup_path (cwd @ [''workspace'']) (clock w))\<rparr>)
          ((cwd @ [''workspace'']) @ q)
        = files w ((cwd @ [''workspace'']) @ q)"
    using copy_keeps_original[of "files w" cwd "clock w" q] by simp
next
  assume "fs_faults w (Copy (cwd @ [''workspace''])
            (backup_path (cwd @ [''workspace'']) (clock w))) = None"
  from reinit_copied[OF ws nogit yes this]
  show "updateWorkspace init cwd answers w
           = (case fs_remove (cwd @ [''workspace''])
                     (w\<lparr>fs_log := fs_log w @ [Copy (cwd @ [''workspace''])
                                          (backup_path (cwd @ [''workspace'']) (clock w))],
                        files := copy_tree (files w) (cwd @ [''workspace''])
                                   (backup_path (cwd @ [''workspace'']) (clock w))\<rparr>) of
                (Inl e, w2) \<Rightarrow> (Inl e, w2)
              | (Inr u, w2) \<Rightarrow>
                  (case init w2 of
                     (Inl e, w3) \<Rightarrow> (Inl e, w3)
                   | (Inr u, w3) \<Rightarrow> (Inr Reinitialized, w3)))" .
qed

theorem C4_backup_before_delete_witness:
  "existsSync (files untracked_world) ([''home''] @ [''workspace''])
   \<and> \<not> existsSync (files untracked_world) ([''home''] @ [''workspace'', ''.git''])
   \<and> reinitialize stash_answers
   \<and> fs_faults untracked_world
        (Copy [''home'', ''workspace''] [''home'', ''workspace_backup_1700000000000'']) = None
   \<and> fst (updateWorkspace no_init [''home''] stash_answers untracked_world) = Inr Reinitialized
   \<and> fs_log (snd (updateWorkspace no_init [''home''] stash_answers untracked_world))
       = [Copy [''home'', ''workspace''] [''home'', ''workspace_backup_1700000000000''],
          Remove [''home'', ''workspace'']]
   \<and> files (snd (updateWorkspace no_init [''home''] stash_answers untracked_world))
        [''home'', ''workspace_backup_1700000000000'', ''package.json''] = Some (File 120)
   \<and> files (snd (updateWorkspace no_init [''home''] stash_answers untracked_world))
        [''home'', ''workspace''] = None
   \<and> fs_faults copy_fails_world
        (Copy [''home'', ''workspace''] [''home'', ''workspace_backup_1700000000000''])
        = Some ''ENOSPC''
   \<and> fst (updateWorkspace no_init [''home''] stash_answers copy_fails_world)
        = Inl (Error ''ENOSPC'')
   \<and> fs_log (snd (updateWorkspace no_init [''home''] stash_answers copy_fails_world))
        = [Copy [''home'', ''workspace''] [''home'', ''workspace_backup_1700000000000'']]
   \<and> files (snd (updateWorkspace no_init [''home''] stash_answers copy_fails_world))
        = files copy_fails_world"
proof -
  have ok: "fs_faults untracked_world
        (Copy ([''home''] @ [''workspace''])
           (backup_path ([''home''] @ [''workspace'']) (clock untracked_world))) = None"
    by (simp add: untracked_world_def dirty_world_def)
  have bad: "fs_faults copy_fails_world
        (Copy ([''home''] @ [''workspace''])
           (backup_path ([''home''] @ [''workspace'']) (clock copy_fails_world))) = Some ''ENOSPC''"
    by (simp add: copy_fails_world_def)
  note good_run = C4_backup_before_delete[OF untracked_facts(1,2,5), of no_init, unfolded Let_def,
                     THEN conjunct2, THEN conjunct2, THEN mp, OF ok]
  note bad_run = C4_backup_before_delete[OF untracked_facts(3,4,5), of no_init, unfolded Let_def,
                    THEN conjunct2, THEN conjunct1, THEN mp]
  from good_run have run: "updateWorkspace no_init [''home''] stash_answers untracked_world
      = (Inr Reinitialized,
         untracked_world
           \<lparr>fs_log := [Copy [''home'', ''workspace''] [''home'', ''workspace_backup_1700000000000''],
                      Remove [''home'', ''workspace'']],
            files := remove_tree
                       (copy_tree untracked_fs [''home'', ''workspace'']
                          [''home'', ''workspace_backup_1700000000000''])
                       [''home'', ''workspace'']\<rparr>)"
    by (simp add: untracked_backup untracked_clock fs_remove_def no_init_def Let_def
          untracked_world_def dirty_world_def)
  have stuck: "updateWorkspace no_init [''home''] stash_answers copy_fails_world
      = (Inl (Error ''ENOSPC''),
         copy_fails_world
           \<lparr>fs_log := [Copy [''home'', ''workspace''] [''home'', ''workspace_backup_1700000000000'']]\<rparr>)"
  proof -
    from bad have "fs_faults copy_fails_world
        (Copy ([''home''] @ [''workspace''])
           (backup_path ([''home''] @ [''workspace'']) (clock copy_fails_world))) \<noteq> None"
      by simp
    from bad_run[OF this] obtain e where
      e: "updateWorkspace no_init [''home''] stash_answers copy_fails_world
           = (Inl e, copy_fails_world\<lparr>fs_log := fs_log copy_fails_world @
                [Copy ([''home''] @ [''workspace''])
                   (backup_path ([''home''] @ [''workspace'']) (clock copy_fails_world))]\<rparr>)"
      by (rule exE)
    have "fst (updateWorkspace no_init [''home''] stash_answers copy_fails_world)
            = Inl (Error ''ENOSPC'')"
      using untracked_facts(3,4,5) bad
      by (simp add: updateWorkspace_def reinitializeWorkspace_def fs_copy_def Let_def)
    with e have "e = Error ''ENOSPC''" by simp
    with e show ?thesis
      by (simp add: untracked_backup untracked_clock copy_fails_world_def untracked_world_def
            dirty_world_def)
  qed
  have copied: "remove_tree
                  (copy_tree untracked_fs [''home'', ''workspace'']
                     [''home'', ''workspace_backup_1700000000000''])
                  [''home'', ''workspace'']
                  [''home'', ''workspace_backup_1700000000000'', ''package.json'']
                = Some (File 120)"
    by (simp add: remove_tree_def copy_tree_def untracked_fs_def)
  have gone: "remove_tree
                  (copy_tree untracked_fs [''home'', ''workspace'']
                     [''home'', ''workspace_backup_1700000000000''])
                  [''home'', ''workspace''] [''home'', ''workspace''] = None"
    by (simp add: remove_tree_def)
  from ok bad have faults:
    "fs_faults untracked_world
        (Copy [''home'', ''workspace''] [''home'', ''workspace_backup_1700000000000'']) = None"
    "fs_faults copy_fails_world
        (Copy [''home'', ''workspace''] [''home'', ''workspace_backup_1700000000000''])
        = Some ''ENOSPC''"
    by (simp_all add: untracked_backup untracked_clock)
  show ?thesis
    using untracked_facts(1,2,5) faults copied gone
    by (simp add: run stuck)
qed

lemma declined_from_fetch:
  assumes "git_faults v Fetch_origin_main = None" and "git_faults v Revparse_HEAD = None"
    and "git_faults v Revparse_origin_main = None" and "git_faults v Log_HEAD_origin_main = None"
    and "HEAD (repo v) \<noteq> remote_main (repo v)" and "\<not> confirmUpdate answers"
  shows "update_from_fetch ws answers v =
           (Inr ConfirmDeclined,
            v\<lparr>git_log := git_log v @ [Fetch_origin_main, Revparse_HEAD, Revparse_origin_main,
                                        Log_HEAD_origin_main],
              repo := (repo v)\<lparr>origin_main := remote_main (repo v)\<rparr>\<rparr>)"
  using assms
  by (simp add: update_from_fetch_def Let_def git_ok git_effect_def rewrites_worktree_def)

lemma edited_world_facts:
  "existsSync (files edited_world) ([''home''] @ [''workspace''])"
  "existsSync (files edited_world) ([''home''] @ [''workspace'', ''.git''])"
  "\<forall>c. c \<noteq> Pull_origin_main \<longrightarrow> git_faults edited_world c = None"
  "HEAD (repo edited_world) \<noteq> remote_main (repo edited_world)"
  "\<not> isClean (repo edited_world)"
  "repo edited_world = dirty_repo\<lparr>remote_main := ''c2''\<rparr>"
  "files edited_world = edited_fs"
  "worktree_after edited_world = edited_worktree_after"
  by (simp_all add: edited_world_def behind_world_def dirty_world_def dirty_repo_def
        edited_fs_def existsSync_def isClean_def)

text \<open>
  Claim C6, as stated: declining the confirmation leaves the workspace unchanged, a stash
  apart. The dirty working tree is resolved before the confirmation is asked for. With
  the answer \<^verbatim>\<open>discard\<close> the update has run \<^verbatim>\<open>reset --hard\<close> and \<^verbatim>\<open>clean -f -d\<close> by then:
  when the operator declines, the edit of the tracked file and the file that was never
  added are gone, and nothing is in the stash.
\<close>

theorem C6_discard_then_decline_loses_changes:
  "fst (updateWorkspace no_init [''home''] discard_answers edited_world) = Inr ConfirmDeclined
   \<and> modified (repo edited_world) = [''just.config.ts'']
   \<and> not_added (repo edited_world) = [''notes.txt'']
   \<and> files edited_world [''home'', ''workspace'', ''just.config.ts''] = Some (File 300)
   \<and> files edited_world [''home'', ''workspace'', ''notes.txt''] = Some (File 40)
   \<and> modified (repo (snd (updateWorkspace no_init [''home''] discard_answers edited_world))) = []
   \<and> not_added (repo (snd (updateWorkspace no_init [''home''] discard_answers edited_world))) = []
   \<and> stash_list (repo (snd (updateWorkspace no_init [''home''] discard_answers edited_world))) = []
   \<and> files (snd (updateWorkspace no_init [''home''] discard_answers edited_world))
        [''home'', ''workspace'', ''just.config.ts''] = Some (File 250)
   \<and> files (snd (updateWorkspace no_init [''home''] discard_answers edited_world))
        [''home'', ''workspace'', ''notes.txt''] = None"
proof -
  have run: "updateWorkspace no_init [''home''] discard_answers edited_world =
      (Inr ConfirmDeclined,
       edited_world\<lparr>git_log := [Status, Reset_hard, Clean_f_d, Fetch_origin_main, Revparse_HEAD,
                                  Revparse_origin_main, Log_HEAD_origin_main],
                     repo := dirty_repo\<lparr>remote_main := ''c2'', modified := [], staged := [],
                                          not_added := [], origin_main := ''c2''\<rparr>,
                     files := remove_tree
                                (edited_fs([''home'', ''workspace'', ''just.config.ts''] \<mapsto> File 250))
                                [''home'', ''workspace'', ''notes.txt'']\<rparr>)"
    using edited_world_facts(1,2)
    by (simp add: updateWorkspace_def Let_def git_def update_from_fetch_def git_effect_def
          rewrites_worktree_def isClean_def discard_answers_def stash_answers_def
          edited_world_def behind_world_def dirty_world_def dirty_repo_def
          edited_worktree_after_def)
  have before: "modified (repo edited_world) = [''just.config.ts'']"
    "not_added (repo edited_world) = [''notes.txt'']"
    "files edited_world [''home'', ''workspace'', ''just.config.ts''] = Some (File 300)"
    "files edited_world [''home'', ''workspace'', ''notes.txt''] = Some (File 40)"
    by (simp_all add: edited_world_facts(6,7) dirty_repo_def edited_fs_def)
  show ?thesis
    unfolding run using before
    by (simp add: dirty_repo_def remove_tree_def)
qed

text \<open>
  Claim C6, amended: on a tracked workspace with commits pending at the remote, when every
  git call up to the confirmation succeeds and the operator declines it, the update ends as
  declined without a pull, and HEAD is what it was before the update. The workspace is as
  the steps before the confirmation left it. The remote-tracking ref has been fetched. When
  the working tree was clean, nothing else has changed: the files, the working tree and the
  stash are as before. After the answer \<^verbatim>\<open>stash\<close> the changes to tracked files are out of
  the working tree and are the newest entry of the stash. After the answer \<^verbatim>\<open>discard\<close> the
  working tree is as \<^verbatim>\<open>reset --hard\<close> and \<^verbatim>\<open>clean -f -d\<close> left it: the changes and the
  files never added are gone, and the stash is as before.
\<close>

theorem C6_declined_update_keeps_resolution:
  assumes "existsSync (files w) (cwd @ [''workspace''])"
    and "existsSync (files w) (cwd @ [''workspace'', ''.git''])"
    and "\<forall>c. c \<noteq> Pull_origin_main \<longrightarrow> git_faults w c = None"
    and "HEAD (repo w) \<noteq> remote_main (repo w)"
    and "\<not> confirmUpdate answers"
    and "isClean (repo w) \<or> continueUpdate answers \<noteq> ''cancel''"
    and "updateWorkspace init cwd answers w = (r, w')"
  shows "r = Inr ConfirmDeclined
         \<and> calls_made w w' = [Status] @ resolution_calls (repo w) answers
              @ [Fetch_origin_main, Revparse_HEAD, Revparse_origin_main, Log_HEAD_origin_main]
         \<and> Pull_origin_main \<notin> set (calls_made w w')
         \<and> HEAD (repo w') = HEAD (repo w)
         \<and> origin_main (repo w') = remote_main (repo w)
         \<and> (isClean (repo w) \<longrightarrow>
              w' = w\<lparr>git_log := git_log w @ [Status, Fetch_origin_main, Revparse_HEAD,
                                               Revparse_origin_main, Log_HEAD_origin_main],
                      repo := (repo w)\<lparr>origin_main := remote_main (repo w)\<rparr>\<rparr>)
         \<and> (\<not> isClean (repo w) \<and> continueUpdate answers = ''stash'' \<longrightarrow>
              w' = w\<lparr>git_log := git_log w @ [Status, Stash, Fetch_origin_main, Revparse_HEAD,
                                               Revparse_origin_main, Log_HEAD_origin_main],
                      repo := (git_effect Stash (repo w))\<lparr>origin_main := remote_main (repo w)\<rparr>,
                      files := worktree_after w Stash (files w)\<rparr>
              \<and> (modified (repo w) @ staged (repo w) \<noteq> [] \<longrightarrow>
                   stash_list (repo w') = (modified (repo w) @ staged (repo w)) # stash_list (repo w)
                   \<and> modified (repo w') = [] \<and> staged (repo w') = []))
         \<and> (\<not> isClean (repo w) \<and> continueUpdate answers = ''discard'' \<longrightarrow>
              w' = w\<lparr>git_log := git_log w @ [Status, Reset_hard, Clean_f_d, Fetch_origin_main,
                                               Revparse_HEAD, Revparse_origin_main,
                                               Log_HEAD_origin_main],
                      repo := (repo w)\<lparr>modified := [], staged := [], not_added := [],
                                        origin_main := remote_main (repo w)\<rparr>,
                      files := worktree_after w Clean_f_d (worktree_after w Reset_hard (files w))\<rparr>)"
proof -
  from assms(3) have nf: "git_faults w Status = None" "git_faults w Stash = None"
    "git_faults w Reset_hard = None" "git_faults w Clean_f_d = None"
    "git_faults w Fetch_origin_main = None" "git_faults w Revparse_HEAD = None"
    "git_faults w Revparse_origin_main = None" "git_faults w Log_HEAD_origin_main = None"
    by simp_all
  let ?tail = "[Fetch_origin_main, Revparse_HEAD, Revparse_origin_main, Log_HEAD_origin_main]"
  have declined: "update_from_fetch ws answers v =
           (Inr ConfirmDeclined,
            v\<lparr>git_log := git_log v @ ?tail,
              repo := (repo v)\<lparr>origin_main := remote_main (repo v)\<rparr>\<rparr>)"
    if "git_faults v = git_faults w" "HEAD (repo v) \<noteq> remote_main (repo v)" for v ws
    using that nf assms(5) by (intro declined_from_fetch) simp_all
  let ?w1 = "w\<lparr>git_log := git_log w @ [Status]\<rparr>"
  have status: "git Status w = (Inr (), ?w1)"
    using nf(1) by (simp add: git_ok git_effect_def rewrites_worktree_def)
  consider (clean) "isClean (repo w)"
    | (stash) "\<not> isClean (repo w)" "continueUpdate answers = ''stash''"
    | (discard) "\<not> isClean (repo w)" "continueUpdate answers = ''discard''"
    | (other) "\<not> isClean (repo w)" "continueUpdate answers \<noteq> ''stash''"
        "continueUpdate answers \<noteq> ''discard''" "continueUpdate answers \<noteq> ''cancel''"
    using assms(6) by blast
  then show ?thesis
  proof cases
    case clean
    with assms(1,2) status have "updateWorkspace init cwd answers w
        = update_from_fetch (cwd @ [''workspace'']) answers ?w1"
      by (simp add: updateWorkspace_def Let_def)
    also have "\<dots> = (Inr ConfirmDeclined,
            ?w1\<lparr>git_log := git_log ?w1 @ ?tail,
              repo := (repo ?w1)\<lparr>origin_main := remote_main (repo ?w1)\<rparr>\<rparr>)"
      using assms(4) by (intro declined) simp_all
    finally show ?thesis
      using assms(7) clean by (auto simp: resolution_calls_def calls_made_def)
  next
    case other
    with assms(1,2) status have "updateWorkspace init cwd answers w
        = update_from_fetch (cwd @ [''workspace'']) answers ?w1"
      by (simp add: updateWorkspace_def Let_def)
    also have "\<dots> = (Inr ConfirmDeclined,
            ?w1\<lparr>git_log := git_log ?w1 @ ?tail,
              repo := (repo ?w1)\<lparr>origin_main := remote_main (repo ?w1)\<rparr>\<rparr>)"
      using assms(4) by (intro declined) simp_all
    finally show ?thesis
      using assms(7) other by (auto simp: resolution_calls_def calls_made_def)
  next
    case stash
    let ?w2 = "w\<lparr>git_log := git_log w @ [Status, Stash], repo := git_effect Stash (repo w),
                  files := worktree_after w Stash (files w)\<rparr>"
    have "git Stash ?w1 = (Inr (), ?w2)"
      using nf(2) by (simp add: git_ok rewrites_worktree_def)
    with assms(1,2) status stash have "updateWorkspace init cwd answers w
        = update_from_fetch (cwd @ [''workspace'']) answers ?w2"
      by (simp add: updateWorkspace_def Let_def)
    also have "\<dots> = (Inr ConfirmDeclined,
            ?w2\<lparr>git_log := git_log ?w2 @ ?tail,
              repo := (repo ?w2)\<lparr>origin_main := remote_main (repo ?w2)\<rparr>\<rparr>)"
      using assms(4) by (intro declined) (simp_all add: git_effect_def)
    finally show ?thesis
      using assms(7) stash
      by (auto simp: resolution_calls_def calls_made_def git_effect_def)
  next
    case discard
    let ?w2 = "w\<lparr>git_log := git_log w @ [Status, Reset_hard],
                  repo := git_effect Reset_hard (repo w),
                  files := worktree_after w Reset_hard (files w)\<rparr>"
    let ?w3 = "w\<lparr>git_log := git_log w @ [Status, Reset_hard, Clean_f_d],
                  repo := git_effect Clean_f_d (git_effect Reset_hard (repo w)),
                  files := worktree_after w Clean_f_d (worktree_after w Reset_hard (files w))\<rparr>"
    have "git Reset_hard ?w1 = (Inr (), ?w2)"
      using nf(3) by (simp add: git_ok rewrites_worktree_def)
    moreover have "git Clean_f_d ?w2 = (Inr (), ?w3)"
      using nf(4) by (simp add: git_ok rewrites_worktree_def)
    ultimately have "updateWorkspace init cwd answers w
        = update_from_fetch (cwd @ [''workspace'']) answers ?w3"
      using assms(1,2) status discard by (simp add: updateWorkspace_def Let_def)
    also have "\<dots> = (Inr ConfirmDeclined,
            ?w3\<lparr>git_log := git_log ?w3 @ ?tail,
              repo := (repo ?w3)\<lparr>origin_main := remote_main (repo ?w3)\<rparr>\<rparr>)"
      using assms(4) by (intro declined) (simp_all add: git_effect_def)
    finally show ?thesis
      using assms(7) discard
      by (auto simp: resolution_calls_def calls_made_def git_effect_def)
  qed
qed

theorem C6_declined_update_keeps_resolution_witness:
  "existsSync (files edited_world) ([''home''] @ [''workspace''])
   \<and> existsSync (files edited_world) ([''home''] @ [''workspace'', ''.git''])
   \<and> HEAD (repo edited_world) \<noteq> remote_main (repo edited_world)
   \<and> \<not> isClean (repo edited_world)
   \<and> \<not> confirmUpdate stash_answers \<and> continueUpdate stash_answers = ''stash''
   \<and> \<not> confirmUpdate discard_answers \<and> continueUpdate discard_answers = ''discard''
   \<and> fst (updateWorkspace no_init [''home''] stash_answers edited_world) = Inr ConfirmDeclined
   \<and> calls_made edited_world (snd (updateWorkspace no_init [''home''] stash_answers edited_world))
       = [Status, Stash, Fetch_origin_main, Revparse_HEAD, Revparse_origin_main,
          Log_HEAD_origin_main]
   \<and> HEAD (repo (snd (updateWorkspace no_init [''home''] stash_answers edited_world))) = ''c1''
   \<and> stash_list (repo (snd (updateWorkspace no_init [''home''] stash_answers edited_world)))
       = [[''just.config.ts'']]
   \<and> modified (repo (snd (updateWorkspace no_init [''home''] stash_answers edited_world))) = []
   \<and> fst (updateWorkspace no_init [''home''] discard_answers edited_world) = Inr ConfirmDeclined
   \<and> calls_made edited_world (snd (updateWorkspace no_init [''home''] discard_answers edited_world))
       = [Status, Reset_hard, Clean_f_d, Fetch_origin_main, Revparse_HEAD, Revparse_origin_main,
          Log_HEAD_origin_main]
   \<and> files (snd (updateWorkspace no_init [''home''] discard_answers edited_world))
       = edited_worktree_after Clean_f_d (edited_worktree_after Reset_hard edited_fs)"
proof -
  have sa: "\<not> confirmUpdate stash_answers" "continueUpdate stash_answers = ''stash''"
    "isClean (repo edited_world) \<or> continueUpdate stash_answers \<noteq> ''cancel''"
    by (simp_all add: stash_answers_def)
  have da: "\<not> confirmUpdate discard_answers" "continueUpdate discard_answers = ''discard''"
    "isClean (repo edited_world) \<or> continueUpdate discard_answers \<noteq> ''cancel''"
    by (simp_all add: discard_answers_def stash_answers_def)
  have res: "resolution_calls (repo edited_world) stash_answers = [Stash]"
    "resolution_calls (repo edited_world) discard_answers = [Reset_hard, Clean_f_d]"
    using edited_world_facts(5) sa(2) da(2) by (simp_all add: resolution_calls_def)
  have before: "HEAD (repo edited_world) = ''c1''"
    "modified (repo edited_world) @ staged (repo edited_world) = [''just.config.ts'']"
    "stash_list (repo edited_world) = []"
    by (simp_all add: edited_world_facts(6) dirty_repo_def)
  let ?ws = "snd (updateWorkspace no_init [''home''] stash_answers edited_world)"
  let ?wd = "snd (updateWorkspace no_init [''home''] discard_answers edited_world)"
  note s = C6_declined_update_keeps_resolution
             [where init = no_init and cwd = "[''home'']" and answers = stash_answers
                and w = edited_world,
              OF edited_world_facts(1,2,3,4) sa(1,3) prod.collapse[symmetric], unfolded res(1)]
  note d = C6_declined_update_keeps_resolution
             [where init = no_init and cwd = "[''home'']" and answers = discard_answers
                and w = edited_world,
              OF edited_world_facts(1,2,3,4) da(1,3) prod.collapse[symmetric], unfolded res(2)]
  from s have s1: "fst (updateWorkspace no_init [''home''] stash_answers edited_world)
                     = Inr ConfirmDeclined"
    and s2: "calls_made edited_world ?ws
               = [Status] @ [Stash]
                 @ [Fetch_origin_main, Revparse_HEAD, Revparse_origin_main, Log_HEAD_origin_main]"
    and s4: "HEAD (repo ?ws) = HEAD (repo edited_world)"
    by blast+
  from s edited_world_facts(5) sa(2)
  have s6: "modified (repo edited_world) @ staged (repo edited_world) \<noteq> [] \<longrightarrow>
              stash_list (repo ?ws)
                = (modified (repo edited_world) @ staged (repo edited_world))
                  # stash_list (repo edited_world)
              \<and> modified (repo ?ws) = [] \<and> staged (repo ?ws) = []"
    by blast
  from d have d1: "fst (updateWorkspace no_init [''home''] discard_answers edited_world)
                     = Inr ConfirmDeclined"
    and d2: "calls_made edited_world ?wd
               = [Status] @ [Reset_hard, Clean_f_d]
                 @ [Fetch_origin_main, Revparse_HEAD, Revparse_origin_main, Log_HEAD_origin_main]"
    by blast+
  from d edited_world_facts(5) da(2)
  have "?wd = edited_world\<lparr>git_log := git_log edited_world
                   @ [Status, Reset_hard, Clean_f_d, Fetch_origin_main, Revparse_HEAD,
                      Revparse_origin_main, Log_HEAD_origin_main],
                 repo := (repo edited_world)\<lparr>modified := [], staged := [], not_added := [],
                           origin_main := remote_main (repo edited_world)\<rparr>,
                 files := worktree_after edited_world Clean_f_d
                            (worktree_after edited_world Reset_hard (files edited_world))\<rparr>"
    by blast
  then have "files ?wd = worktree_after edited_world Clean_f_d
                            (worktree_after edited_world Reset_hard (files edited_world))"
    by (rule ssubst) simp
  then have d7: "files ?wd = edited_worktree_after Clean_f_d (edited_worktree_after Reset_hard edited_fs)"
    by (simp only: edited_world_facts(7,8))
  from s6 before have s7: "stash_list (repo ?ws) = [[''just.config.ts'']]" "modified (repo ?ws) = []"
    by simp_all
  from s1 s2 s4 s7 d1 d2 d7 before(1) edited_world_facts(1,2,4,5) sa(1,2) da(1,2)
  show ?thesis by simp
qed

text \<open>
  Claim C7: on a dirty tracked workspace the answer \<^verbatim>\<open>cancel\<close> ends the update at once.
  The world after the run is the world before it with \<^verbatim>\<open>status\<close> appended to the log of
  git calls: no other call is made, and the repository, HEAD and the files are untouched.
\<close>

theorem C7_cancel_changes_nothing:
  assumes "existsSync (files w) (cwd @ [''workspace''])"
    and "existsSync (files w) (cwd @ [''workspace'', ''.git''])"
    and "git_faults w Status = None"
    and "\<not> isClean (repo w)"
    and "continueUpdate answers = ''cancel''"
  shows "updateWorkspace init cwd answers w
           = (Inr UpdateCancelled, w\<lparr>git_log := git_log w @ [Status]\<rparr>)"
  using assms
  by (simp add: updateWorkspace_def Let_def git_ok git_effect_def rewrites_worktree_def)

theorem C7_cancel_changes_nothing_witness:
  "existsSync (files dirty_world) ([''home''] @ [''workspace''])
   \<and> existsSync (files dirty_world) ([''home''] @ [''workspace'', ''.git''])
   \<and> git_faults dirty_world Status = None
   \<and> \<not> isClean (repo dirty_world)
   \<and> continueUpdate cancel_answers = ''cancel''
   \<and> updateWorkspace no_init [''home''] cancel_answers dirty_world
       = (Inr UpdateCancelled, dirty_world\<lparr>git_log := git_log dirty_world @ [Status]\<rparr>)"
proof -
  have nf: "git_faults dirty_world Status = None" by (simp add: dirty_world_def)
  have d: "\<not> isClean (repo dirty_world)"
    by (simp add: isClean_def dirty_world_def dirty_repo_def)
  have c: "continueUpdate cancel_answers = ''cancel''"
    by (simp add: cancel_answers_def)
  from C7_cancel_changes_nothing[OF dirty_world_tracked(1,2) nf d c, of no_init]
  show ?thesis using dirty_world_tracked(1,2) nf d c by simp
qed

section \<open>Properties of the projects report\<close>

lemma entry_below_Dir:
  assumes "fs d = Some (Dir dsz names)"
  shows "entry_below fs d p \<longleftrightarrow>
           (\<exists>x q. p = x # q \<and> x \<in> set names \<and> (q = [] \<or> entry_below fs (d @ [x]) q))"
proof
  assume "entry_below fs d p"
  then show "\<exists>x q. p = x # q \<and> x \<in> set names \<and> (q = [] \<or> entry_below fs (d @ [x]) q)"
    using assms by (cases rule: entry_below.cases) auto
next
  assume "\<exists>x q. p = x # q \<and> x \<in> set names \<and> (q = [] \<or> entry_below fs (d @ [x]) q)"
  then obtain x q where p: "p = x # q" and x: "x \<in> set names"
    and q: "q = [] \<or> entry_below fs (d @ [x]) q" by blast
  from q show "entry_below fs d p"
  proof
    assume "q = []"
    with p x assms show ?thesis by (simp add: entry_here)
  next
    assume "entry_below fs (d @ [x]) q"
    with p x assms show ?thesis by (simp add: entry_deeper)
  qed
qed

lemma entry_below_not_Dir:
  assumes "\<And>dsz names. fs d \<noteq> Some (Dir dsz names)"
  shows "\<not> entry_below fs d p"
proof
  assume "entry_below fs d p"
  then show False using assms by (cases rule: entry_below.cases) auto
qed

lemma readdirSync_recursive_names_sound:
  assumes IH: "\<And>rel' L'. rec rel' = Some (Inr L') \<Longrightarrow> set L' = listed_below fs dir rel'"
  shows "readdirSync_recursive_names rec fs dir rel names = Some (Inr L) \<Longrightarrow>
         set L = {rel @ x # q |x q. x \<in> set names
                    \<and> (q = [] \<or> entry_below fs (dir @ rel @ [x]) q)}"
proof (induction names arbitrary: L)
  case Nil
  then show ?case by simp
next
  case (Cons x xs)
  let ?first = "case statSync fs (dir @ rel @ [x]) of
                  Inl e \<Rightarrow> Some (Inr [])
                | Inr st \<Rightarrow> if isDirectory st then rec (rel @ [x]) else Some (Inr [])"
  from Cons.prems obtain below others where
    first: "?first = Some (Inr below)"
    and rest: "readdirSync_recursive_names rec fs dir rel xs = Some (Inr others)"
    and L: "L = (rel @ [x]) # below @ others"
    by (auto split: Option.bind_splits sum.splits)
  have below: "set below = {rel @ x # q |q. entry_below fs (dir @ rel @ [x]) q}"
  proof (cases "fs (dir @ rel @ [x])")
    case None
    then have "\<not> entry_below fs (dir @ rel @ [x]) q" for q
      by (intro entry_below_not_Dir) simp
    moreover from None first have "below = []" by (simp add: statSync_def)
    ultimately show ?thesis by simp
  next
    case (Some nd)
    show ?thesis
    proof (cases nd)
      case (File n)
      with Some have "\<not> entry_below fs (dir @ rel @ [x]) q" for q
        by (intro entry_below_not_Dir) simp
      moreover from Some File first have "below = []" by (simp add: statSync_def)
      ultimately show ?thesis by simp
    next
      case (Dir dsz ns)
      with Some first have "rec (rel @ [x]) = Some (Inr below)" by (simp add: statSync_def)
      from IH[OF this] show ?thesis by (auto simp: listed_below_def)
    next
      case (Sealed dsz)
      with Some first have "rec (rel @ [x]) = Some (Inr below)" by (simp add: statSync_def)
      from IH[OF this] show ?thesis by (auto simp: listed_below_def)
    qed
  qed
  from Cons.IH[OF rest]
  have others: "set others = {rel @ y # q |y q. y \<in> set xs
                    \<and> (q = [] \<or> entry_below fs (dir @ rel @ [y]) q)}" .
  show ?case
    unfolding L using below others by auto
qed

lemma readdirSync_recursive_sound:
  assumes "readdirSync_recursive fs dir rel = Some r" and "r = Inr L"
  shows "set L = listed_below fs dir rel"
  using assms
proof (induct arbitrary: L rule: readdirSync_recursive.raw_induct[rotated, consumes 1])
  case (1 f fs dir rel r)
  from 1(2,3) obtain names where rd: "readdirSync fs (dir @ rel) = Inr names"
    and loop: "readdirSync_recursive_names (f fs dir) fs dir rel names = Some (Inr L)"
    by (auto split: sum.splits)
  from rd obtain dsz where dir: "fs (dir @ rel) = Some (Dir dsz names)"
    by (auto simp: readdirSync_def split: option.splits node.splits)
  have "set L = {rel @ x # q |x q. x \<in> set names
                    \<and> (q = [] \<or> entry_below fs (dir @ rel @ [x]) q)}"
  proof (rule readdirSync_recursive_names_sound[OF _ loop])
    fix rel' L' assume "f fs dir rel' = Some (Inr L')"
    then show "set L' = listed_below fs dir rel'" by (rule 1(1)) simp
  qed
  also have "\<dots> = listed_below fs dir rel"
    unfolding listed_below_def
    using entry_below_Dir[where fs = fs and d = "dir @ rel" and names = names, OF dir] by auto
  finally show ?case .
qed

lemma suffix_after_slash:
  assumes "CHR ''/'' \<notin> set s"
  shows "suffix s (a @ CHR ''/'' # t) = suffix s t"
proof
  assume "suffix s (a @ CHR ''/'' # t)"
  then have "suffix s ((a @ [CHR ''/'']) @ t)" by simp
  then have "suffix s t \<or> (\<exists>s'. s = s' @ t \<and> suffix s' (a @ [CHR ''/'']))"
    by (simp only: suffix_append)
  then show "suffix s t"
  proof
    assume "\<exists>s'. s = s' @ t \<and> suffix s' (a @ [CHR ''/''])"
    then obtain s' where s: "s = s' @ t" and s': "suffix s' (a @ [CHR ''/''])" by blast
    show ?thesis
    proof (cases "s' = []")
      case True
      with s show ?thesis by simp
    next
      case False
      from s' obtain zs where "a @ [CHR ''/''] = zs @ s'" by (auto simp: suffix_def)
      then have "last (a @ [CHR ''/'']) = last (zs @ s')" by simp
      with False have "last s' = CHR ''/''" by simp
      with False have "CHR ''/'' \<in> set s'" by (metis last_in_set)
      with s assms show ?thesis by simp
    qed
  qed
next
  assume "suffix s t"
  then show "suffix s (a @ CHR ''/'' # t)" by (simp add: suffix_appendI suffix_ConsI)
qed

lemma endsWith_join_path:
  "q \<noteq> [] \<Longrightarrow> endsWith (join_path q) ''.js'' = endsWith (last q) ''.js''"
proof (induction q rule: join_path.induct)
  case 1
  then show ?case by simp
next
  case (2 x)
  then show ?case by simp
next
  case (3 x y ys)
  have "endsWith (join_path (x # y # ys)) ''.js'' = endsWith (join_path (y # ys)) ''.js''"
    using suffix_after_slash[of "''.js''" x "join_path (y # ys)"] by (simp add: endsWith_def)
  with 3 show ?case by simp
qed

lemma entry_below_nonempty: "entry_below fs d q \<Longrightarrow> q \<noteq> []"
  by (cases rule: entry_below.cases) auto

lemma hasCompiledScripts_sound:
  assumes "hasCompiledScripts fs scriptsDir = Some (Inr built)"
  shows "built \<longleftrightarrow> existsSync fs scriptsDir \<and> has_js_entry fs scriptsDir"
proof (cases "existsSync fs scriptsDir")
  case False
  with assms show ?thesis by (simp add: hasCompiledScripts_def)
next
  case True
  with assms obtain entries where
    ls: "readdirSync_recursive fs scriptsDir [] = Some (Inr entries)"
    and b: "built = (length (filter (\<lambda>file. endsWith (join_path file) ''.js'') entries) > 0)"
    by (auto simp: hasCompiledScripts_def Let_def split: option.splits sum.splits)
  from readdirSync_recursive_sound[OF ls refl]
  have entries: "set entries = {q. entry_below fs scriptsDir q}"
    by (simp add: listed_below_def)
  have "built \<longleftrightarrow> (\<exists>q \<in> set entries. endsWith (join_path q) ''.js'')"
    unfolding b by (simp add: filter_empty_conv)
  also have "\<dots> \<longleftrightarrow> (\<exists>q. entry_below fs scriptsDir q \<and> endsWith (join_path q) ''.js'')"
    unfolding entries by simp
  also have "\<dots> \<longleftrightarrow> has_js_entry fs scriptsDir"
    unfolding has_js_entry_def
    using entry_below_nonempty[of fs scriptsDir] endsWith_join_path by metis
  finally show ?thesis using True by simp
qed

lemma showProjectsStatus_projects_lines:
  assumes "showProjectsStatus_projects fs mv projectsDir projects = Some (lines, failure)"
    and "ProjectLine p b v \<in> set lines"
  shows "hasCompiledScripts fs (projectsDir @ [p, ''behavior_pack'', ''scripts'']) = Some (Inr b)"
  using assms
proof (induction projects arbitrary: lines failure)
  case Nil
  then show ?case by simp
next
  case (Cons x xs)
  show ?case
  proof (cases "hasCompiledScripts fs (projectsDir @ [x, ''behavior_pack'', ''scripts''])")
    case None
    with Cons.prems(1) show ?thesis by simp
  next
    case (Some r)
    show ?thesis
    proof (cases r)
      case (Inl e)
      with Some Cons.prems show ?thesis by auto
    next
      case (Inr built)
      with Some Cons.prems(1) obtain lines' where
        rest: "showProjectsStatus_projects fs mv projectsDir xs = Some (lines', failure)"
        and lines: "lines = ProjectLine x built
                      (if existsSync fs (projectsDir @ [x, ''behavior_pack'', ''manifest.json''])
                       then mv (projectsDir @ [x, ''behavior_pack'', ''manifest.json'']) else None)
                      # lines'"
        by (auto simp: Let_def split: option.splits)
      from Cons.prems(2) lines
      have "(p = x \<and> b = built) \<or> ProjectLine p b v \<in> set lines'" by auto
      then show ?thesis
      proof
        assume "p = x \<and> b = built"
        with Some Inr show ?thesis by simp
      next
        assume "ProjectLine p b v \<in> set lines'"
        with rest show ?thesis by (rule Cons.IH)
      qed
    qed
  qed
qed

lemma showProjectsStatus_lines:
  assumes "showProjectsStatus fs mv workspaceDir = Some lines"
    and "ProjectLine p b v \<in> set lines"
  shows "hasCompiledScripts fs (workspaceDir @ [''projects'', p, ''behavior_pack'', ''scripts''])
           = Some (Inr b)"
proof -
  from assms obtain projects lines' failure where
    loop: "showProjectsStatus_projects fs mv (workspaceDir @ [''projects'']) projects
             = Some (lines', failure)"
    and mem: "ProjectLine p b v \<in> set lines'"
    by (auto simp: showProjectsStatus_def Let_def
             split: if_splits sum.splits option.splits prod.splits)
  from showProjectsStatus_projects_lines[OF loop mem] show ?thesis by simp
qed

declare readdirSync_recursive.simps [code]

lemma status_fs_report:
  "showProjectsStatus status_fs no_manifest [''home'', ''workspace'']
     = Some [TotalProjects 2, ProjectDetails, ProjectLine ''built_one'' True None,
             ProjectLine ''empty_one'' False None, TemplateAvailable]"
  by code_simp

lemma entry_below_empty:
  assumes "readdirSync fs d = Inr []"
  shows "\<not> entry_below fs d q"
proof -
  from assms obtain dsz where "fs d = Some (Dir dsz [])"
    by (auto simp: readdirSync_def split: option.splits node.splits)
  from entry_below_Dir[where fs = fs and d = d and names = "[]", OF this]
  show ?thesis by simp
qed

text \<open>
  Claim C8, as stated: the built flag is true if and only if the scripts directory holds
  at least one compiled-script file. The check filters the names of the recursive listing
  and never asks what an entry is: a project whose scripts directory holds nothing but an
  empty directory called \<^verbatim>\<open>gen.js\<close> is reported as built, in a workspace without any file.
\<close>

theorem C8_directory_named_js_reported_built:
  "showProjectsStatus named_js_fs no_manifest [''home'', ''workspace'']
     = Some [TotalProjects 1, ProjectDetails, ProjectLine ''d'' True None, TemplateMissing]
   \<and> (\<forall>p n. named_js_fs p \<noteq> Some (File n))"
proof -
  have report: "showProjectsStatus named_js_fs no_manifest [''home'', ''workspace'']
     = Some [TotalProjects 1, ProjectDetails, ProjectLine ''d'' True None, TemplateMissing]"
    by code_simp
  have "named_js_fs p \<noteq> Some (File n)" for p n
    by (simp add: named_js_fs_def)
  with report show ?thesis by simp
qed

text \<open>
  Claim C8, amended: for every project that the report lists, the built flag is true exactly
  when the scripts directory of its behavior pack exists and some entry anywhere in its
  recursive tree has a name ending in \<^verbatim>\<open>.js\<close>, whatever that entry is: a file, a directory or
  a link. A project whose scripts directory exists and is empty is reported as not built.
\<close>

theorem C8_built_iff_js_entry:
  assumes "showProjectsStatus fs manifestVersion workspaceDir = Some lines"
    and "ProjectLine project built version \<in> set lines"
  shows "(built \<longleftrightarrow>
            existsSync fs (workspaceDir @ [''projects'', project, ''behavior_pack'', ''scripts''])
            \<and> has_js_entry fs (workspaceDir @ [''projects'', project, ''behavior_pack'', ''scripts'']))
         \<and> (readdirSync fs (workspaceDir @ [''projects'', project, ''behavior_pack'', ''scripts''])
               = Inr [] \<longrightarrow> \<not> built)"
proof -
  let ?sd = "workspaceDir @ [''projects'', project, ''behavior_pack'', ''scripts'']"
  from showProjectsStatus_lines[OF assms]
  have "hasCompiledScripts fs ?sd = Some (Inr built)" .
  then have iff: "built \<longleftrightarrow> existsSync fs ?sd \<and> has_js_entry fs ?sd"
    by (rule hasCompiledScripts_sound)
  have "\<not> has_js_entry fs ?sd" if "readdirSync fs ?sd = Inr []"
    unfolding has_js_entry_def using entry_below_empty[OF that] by simp
  with iff show ?thesis by blast
qed

theorem C8_built_iff_js_entry_witness:
  "showProjectsStatus status_fs no_manifest [''home'', ''workspace'']
     = Some [TotalProjects 2, ProjectDetails, ProjectLine ''built_one'' True None,
             ProjectLine ''empty_one'' False None, TemplateAvailable]
   \<and> existsSync status_fs
        [''home'', ''workspace'', ''projects'', ''built_one'', ''behavior_pack'', ''scripts'']
   \<and> has_js_entry status_fs
        [''home'', ''workspace'', ''projects'', ''built_one'', ''behavior_pack'', ''scripts'']
   \<and> readdirSync status_fs
        [''home'', ''workspace'', ''projects'', ''empty_one'', ''behavior_pack'', ''scripts'']
        = Inr []
   \<and> \<not> has_js_entry status_fs
        [''home'', ''workspace'', ''projects'', ''empty_one'', ''behavior_pack'', ''scripts'']"
proof -
  have m1: "ProjectLine ''built_one'' True None
              \<in> set [TotalProjects 2, ProjectDetails, ProjectLine ''built_one'' True None,
                      ProjectLine ''empty_one'' False None, TemplateAvailable]"
    and m2: "ProjectLine ''empty_one'' False None
              \<in> set [TotalProjects 2, ProjectDetails, ProjectLine ''built_one'' True None,
                      ProjectLine ''empty_one'' False None, TemplateAvailable]"
    by simp_all
  have e: "existsSync status_fs
        [''home'', ''workspace'', ''projects'', ''empty_one'', ''behavior_pack'', ''scripts'']"
    and d: "readdirSync status_fs
        [''home'', ''workspace'', ''projects'', ''empty_one'', ''behavior_pack'', ''scripts'']
        = Inr []"
    by (simp_all add: status_fs_def existsSync_def readdirSync_def)
  from C8_built_iff_js_entry[OF status_fs_report m1] C8_built_iff_js_entry[OF status_fs_report m2] status_fs_report e d
  show ?thesis by simp
qed

end
